theory Spec2Isabelle
  imports
    Complex_Main
    "HOL-Library.Sublist"
    "HOL-Library.Multiset"
    "HOL-Library.Product_Lexorder"
    "HOL-Library.List_Lexorder"
    "HOL-Library.Char_ord"
begin

section \<open>The research bundler (scripts/research\_bundle.py)\<close>

text \<open>
  The script walks a research directory, scores each document by keyword hits and recency,
  and copies the best ones into a flat bundle directory with a manifest and an index.

  Modelling decisions.
  \<^item> Python \<open>str\<close> is modelled as \<open>string\<close>; every character is one code point below
    256, so \<open>len\<close> is \<open>length\<close>, and white space and letter case are those of Python on
    these code points.
  \<^item> Python \<open>float\<close> (timestamps, ages, scores) is modelled as \<open>real\<close>: the formulas are
    the source's, rounding is not modelled.
  \<^item> A \<open>Path\<close> is the list of its components; absolute paths are already resolved.
  \<^item> What the script reads from its surroundings (current directory, clock, file system,
    the \<open>re\<close> and \<open>hashlib\<close> libraries) is a field of the record \<open>env\<close>.
  \<^item> Exceptions that escape \<open>main\<close> are values of \<open>error\<close>; file-system writes are
    recorded, in order, as a list of \<open>effect\<close>s. The output root is taken to be writable
    and the day window small enough for its length in seconds to be a \<open>float\<close>.
\<close>

subsection \<open>Strings\<close>

definition upper_letters :: string where
  "upper_letters = ''ABCDEFGHIJKLMNOPQRSTUVWXYZ''"

definition lower_letters :: string where
  "lower_letters = ''abcdefghijklmnopqrstuvwxyz''"

definition digit_chars :: string where
  "digit_chars = ''0123456789''"

text \<open>
  The upper-case letters between the code points 128 and 255 and their lower-case
  partners, 32 code points further on.
\<close>
definition latin_upper :: string where
  "latin_upper =
     [CHR 0xC0, CHR 0xC1, CHR 0xC2, CHR 0xC3, CHR 0xC4, CHR 0xC5, CHR 0xC6, CHR 0xC7,
      CHR 0xC8, CHR 0xC9, CHR 0xCA, CHR 0xCB, CHR 0xCC, CHR 0xCD, CHR 0xCE, CHR 0xCF,
      CHR 0xD0, CHR 0xD1, CHR 0xD2, CHR 0xD3, CHR 0xD4, CHR 0xD5, CHR 0xD6, CHR 0xD8,
      CHR 0xD9, CHR 0xDA, CHR 0xDB, CHR 0xDC, CHR 0xDD, CHR 0xDE]"

definition latin_lower :: string where
  "latin_lower =
     [CHR 0xE0, CHR 0xE1, CHR 0xE2, CHR 0xE3, CHR 0xE4, CHR 0xE5, CHR 0xE6, CHR 0xE7,
      CHR 0xE8, CHR 0xE9, CHR 0xEA, CHR 0xEB, CHR 0xEC, CHR 0xED, CHR 0xEE, CHR 0xEF,
      CHR 0xF0, CHR 0xF1, CHR 0xF2, CHR 0xF3, CHR 0xF4, CHR 0xF5, CHR 0xF6, CHR 0xF8,
      CHR 0xF9, CHR 0xFA, CHR 0xFB, CHR 0xFC, CHR 0xFD, CHR 0xFE]"


definition lower_char :: "char \<Rightarrow> char" where
  "lower_char c =
     (case map_of (zip (upper_letters @ latin_upper) (lower_letters @ latin_lower)) c of
        Some d \<Rightarrow> d
      | None \<Rightarrow> c)"

text \<open>\<open>str.lower()\<close>\<close>
definition str_lower :: "string \<Rightarrow> string" where
  "str_lower s = map lower_char s"

text \<open>
  \<open>str.isspace()\<close>: TAB, LF, VT, FF, CR, FS, GS, RS, US, SPACE, NEL and the no-break
  space.
\<close>
definition is_space :: "char \<Rightarrow> bool" where
  "is_space c = (c \<in> set [CHR 0x09, CHR 0x0A, CHR 0x0B, CHR 0x0C, CHR 0x0D,
                            CHR 0x1C, CHR 0x1D, CHR 0x1E, CHR 0x1F, CHR 0x20,
                            CHR 0x85, CHR 0xA0])"

text \<open>\<open>s.strip(chars)\<close> and \<open>s.lstrip(chars)\<close>, for a predicate on characters.\<close>
definition lstrip_chars :: "(char \<Rightarrow> bool) \<Rightarrow> string \<Rightarrow> string" where
  "lstrip_chars P s = dropWhile P s"

definition strip_chars :: "(char \<Rightarrow> bool) \<Rightarrow> string \<Rightarrow> string" where
  "strip_chars P s = rev (dropWhile P (rev (dropWhile P s)))"

text \<open>\<open>s.split(c)\<close> for a one-character separator: never empty, keeps empty fields.\<close>
fun split_on :: "char \<Rightarrow> string \<Rightarrow> string list" where
  "split_on c [] = [[]]"
| "split_on c (x # xs) =
     (if x = c then [] # split_on c xs
      else (case split_on c xs of [] \<Rightarrow> [[x]] | w # ws \<Rightarrow> (x # w) # ws))"

text \<open>\<open>s.split()\<close>: the maximal runs of non-whitespace; \<open>cur\<close> is the current run, reversed.\<close>
fun split_ws_from :: "string \<Rightarrow> string \<Rightarrow> string list" where
  "split_ws_from cur [] = (if cur = [] then [] else [rev cur])"
| "split_ws_from cur (c # cs) =
     (if is_space c then (if cur = [] then split_ws_from [] cs else rev cur # split_ws_from [] cs)
      else split_ws_from (c # cur) cs)"

definition split_ws :: "string \<Rightarrow> string list" where
  "split_ws s = split_ws_from [] s"

text \<open>\<open>s.replace(a, b)\<close> for a one-character \<open>a\<close>.\<close>
definition replace_char :: "char \<Rightarrow> string \<Rightarrow> string \<Rightarrow> string" where
  "replace_char a b s = concat (map (\<lambda>c. if c = a then b else [c]) s)"

subsection \<open>Paths\<close>

type_synonym path = "string list"

text \<open>\<open>str(p)\<close> of a relative POSIX path; the empty path prints as a dot.\<close>
fun join_sep :: "string \<Rightarrow> string list \<Rightarrow> string" where
  "join_sep sep [] = []"
| "join_sep sep [x] = x"
| "join_sep sep (x # y # ys) = x @ sep @ join_sep sep (y # ys)"

definition str_of_path :: "path \<Rightarrow> string" where
  "str_of_path p = (if p = [] then ''.'' else join_sep ''/'' p)"

text \<open>\<open>Path(s)\<close> for a string: the components between the separators, empty ones dropped.\<close>
definition path_of_str :: "string \<Rightarrow> path" where
  "path_of_str s = filter (\<lambda>c. c \<noteq> []) (split_on CHR ''/'' s)"

definition path_name :: "path \<Rightarrow> string" where
  "path_name p = (if p = [] then [] else last p)"

text \<open>
  \<open>PurePath.suffix\<close> and \<open>PurePath.stem\<close> (CPython 3.8 to 3.13): with \<open>i = name.rfind('.')\<close>,
  the suffix is \<open>name[i:]\<close> when \<open>0 < i < len(name) - 1\<close> and empty otherwise.
  \<open>after_dot\<close> is what follows the last dot.
\<close>
definition after_dot :: "string \<Rightarrow> string" where
  "after_dot nm = rev (takeWhile (\<lambda>c. c \<noteq> CHR ''.'') (rev nm))"

definition has_suffix :: "string \<Rightarrow> bool" where
  "has_suffix nm = (CHR ''.'' \<in> set nm \<and> after_dot nm \<noteq> [] \<and> Suc (length (after_dot nm)) < length nm)"

definition name_suffix :: "string \<Rightarrow> string" where
  "name_suffix nm = (if has_suffix nm then CHR ''.'' # after_dot nm else [])"

definition name_stem :: "string \<Rightarrow> string" where
  "name_stem nm = (if has_suffix nm then take (length nm - Suc (length (after_dot nm))) nm else nm)"

definition path_suffix :: "path \<Rightarrow> string" where
  "path_suffix p = name_suffix (path_name p)"

definition path_stem :: "path \<Rightarrow> string" where
  "path_stem p = name_stem (path_name p)"

text \<open>\<open>p.relative_to(root)\<close>: raises \<open>ValueError\<close> (here \<open>None\<close>) unless \<open>base\<close> is a prefix.\<close>
definition relative_to :: "path \<Rightarrow> path \<Rightarrow> path option" where
  "relative_to p base = (if prefix base p then Some (drop (length base) p) else None)"

subsection \<open>Data model\<close>

record candidate =
  path :: path
  mtime :: real
  age_days :: real
  hits :: nat
  score :: real
  out_name :: string

text \<open>The parsed command line.\<close>
record args =
  query :: string
  regex :: bool
  days :: int
  limit :: int
  research_dir :: string
  out :: string
  name :: string
  ext :: string

text \<open>A compiled pattern: an escaped literal term, or the query taken as a regular expression.\<close>
datatype pattern = Literal string | Regex string

text \<open>
  The surroundings of one run. \<open>resolve s\<close> is \<open>(Path.cwd() / s).resolve()\<close>; \<open>is_dir p\<close> is
  \<open>p.exists() and p.is_dir()\<close>; \<open>rglob d\<close> is what \<open>d.rglob("*")\<close> yields; \<open>read_text p\<close> is
  \<open>None\<close> when the file cannot be read; \<open>re_valid r\<close> says that \<open>re.compile(r)\<close> succeeds and
  \<open>re_findall r t\<close> is \<open>len(re.compile(r, re.IGNORECASE).findall(t))\<close>; \<open>sha1_hexdigest s\<close> is
  \<open>hashlib.sha1(s.encode("utf-8")).hexdigest()\<close>; \<open>timestamp\<close> is the local time printed as
  \<open>%Y%m%d-%H%M%S\<close>.
\<close>
record env =
  cwd :: path
  now_ts :: real
  timestamp :: string
  resolve :: "string \<Rightarrow> path"
  is_dir :: "path \<Rightarrow> bool"
  rglob :: "path \<Rightarrow> path list"
  is_file :: "path \<Rightarrow> bool"
  st_mtime :: "path \<Rightarrow> real"
  read_text :: "path \<Rightarrow> string option"
  re_valid :: "string \<Rightarrow> bool"
  re_findall :: "string \<Rightarrow> string \<Rightarrow> nat"
  sha1_hexdigest :: "string \<Rightarrow> string"

text \<open>
  Exceptions that escape \<open>main\<close>: \<open>re.error\<close> from compiling the query, \<open>ValueError\<close> from
  \<open>relative_to\<close>, \<open>OSError\<close> from copying a file that cannot be read.
\<close>
datatype error = ReError | ValueError | OSError

datatype effect =
    MkdirP path
  | Copy2 path path
  | WriteText path
  | PrintErr
  | PrintOut path

record run =
  status :: "error + int"
  effects :: "effect list"
  selected :: "candidate list"

subsection \<open>\<open>_tokenize_query\<close>\<close>

definition tokenize_query :: "string \<Rightarrow> string list" where
  "tokenize_query q =
     map (strip_chars is_space) (filter (\<lambda>t. strip_chars is_space t \<noteq> []) (split_ws q))"

subsection \<open>\<open>_safe_flat_name\<close>\<close>

text \<open>The hash function is a parameter: \<open>h s\<close> is the SHA-1 hex digest of \<open>s\<close>.\<close>
definition safe_flat_name :: "(string \<Rightarrow> string) \<Rightarrow> path \<Rightarrow> string" where
  "safe_flat_name h rel =
     (let s = replace_char CHR ''/'' ''__'' (str_of_path rel);
          s = replace_char CHR '' '' ''_'' s
      in if length s > 180
         then take 80 (path_stem (path_of_str s)) @ ''__'' @ take 10 (h (str_of_path rel))
              @ path_suffix (path_of_str s)
         else s)"

subsection \<open>\<open>_count_hits\<close>\<close>

text \<open>
  \<open>len(pat.findall(text))\<close> for an escaped literal under \<open>re.IGNORECASE\<close>: the matches are
  found left to right and do not overlap; the empty pattern matches at every position.
\<close>
fun count_literal :: "string \<Rightarrow> string \<Rightarrow> nat" where
  "count_literal t [] = 0"
| "count_literal t (c # cs) =
     (if prefix (str_lower t) (str_lower (c # cs))
      then Suc (count_literal t (drop (length t - 1) cs))
      else count_literal t cs)"

definition findall_count :: "env \<Rightarrow> pattern \<Rightarrow> string \<Rightarrow> nat" where
  "findall_count E pat text =
     (case pat of
        Literal t \<Rightarrow> (if t = [] then Suc (length text) else count_literal t text)
      | Regex r \<Rightarrow> re_findall E r text)"

definition count_hits :: "env \<Rightarrow> path \<Rightarrow> pattern list \<Rightarrow> nat" where
  "count_hits E p patterns =
     (case read_text E p of
        None \<Rightarrow> 0
      | Some text \<Rightarrow> fold (\<lambda>pat h. h + findall_count E pat text) patterns 0)"

subsection \<open>\<open>main\<close>: the allow-list and the patterns\<close>

text \<open>\<open>{"." + e.strip().lstrip(".") for e in args.ext.split(",") if e.strip()}\<close>\<close>
definition ext_entry :: "string \<Rightarrow> string" where
  "ext_entry e = CHR ''.'' # lstrip_chars (\<lambda>c. c = CHR ''.'') (strip_chars is_space e)"

definition parse_exts :: "string \<Rightarrow> string set" where
  "parse_exts x =
     set (map ext_entry (filter (\<lambda>e. strip_chars is_space e \<noteq> []) (split_on CHR '','' x)))"

definition build_patterns :: "env \<Rightarrow> args \<Rightarrow> error + pattern list" where
  "build_patterns E A =
     (if query A \<noteq> [] then
        (if regex A then
           (if re_valid E (query A) then Inr [Regex (query A)] else Inl ReError)
         else Inr (map Literal (tokenize_query (query A))))
      else Inr [])"

subsection \<open>\<open>main\<close>: collecting the candidates\<close>

definition cutoff :: "env \<Rightarrow> args \<Rightarrow> real" where
  "cutoff E A = now_ts E - real_of_int (days A * 86400)"

text \<open>The three tests of the loop that end in \<open>continue\<close>.\<close>
definition admitted :: "env \<Rightarrow> args \<Rightarrow> path \<Rightarrow> bool" where
  "admitted E A p =
     (if \<not> is_file E p then False
      else if str_lower (path_suffix p) \<notin> parse_exts (ext A) then False
      else if st_mtime E p < cutoff E A then False
      else True)"

text \<open>The body of the loop after the tests, given \<open>rel = p.relative_to(repo_root)\<close>.\<close>
definition make_candidate :: "env \<Rightarrow> args \<Rightarrow> pattern list \<Rightarrow> path \<Rightarrow> path \<Rightarrow> candidate" where
  "make_candidate E A patterns p rel =
     (let age = max 0 ((now_ts E - st_mtime E p) / 86400);
          h = (if patterns \<noteq> [] then count_hits E p patterns else 0);
          recency = max 0 (1 - age / real_of_int (max 1 (days A)));
          sc = real h * 100 + recency * 10
      in \<lparr>path = p, mtime = st_mtime E p, age_days = age, hits = h, score = sc,
          out_name = safe_flat_name (sha1_hexdigest E) rel\<rparr>)"

text \<open>The loop over the sorted directory listing; the first \<open>ValueError\<close> ends the run.\<close>
fun collect :: "env \<Rightarrow> args \<Rightarrow> pattern list \<Rightarrow> path list \<Rightarrow> error + candidate list" where
  "collect E A patterns [] = Inr []"
| "collect E A patterns (p # ps) =
     (if \<not> admitted E A p then collect E A patterns ps
      else (case relative_to p (cwd E) of
              None \<Rightarrow> Inl ValueError
            | Some rel \<Rightarrow>
                (case collect E A patterns ps of
                   Inl e \<Rightarrow> Inl e
                 | Inr cs \<Rightarrow> Inr (make_candidate E A patterns p rel # cs))))"

subsection \<open>\<open>main\<close>: filtering, ranking, selecting\<close>

definition drop_zero_hits :: "pattern list \<Rightarrow> candidate list \<Rightarrow> candidate list" where
  "drop_zero_hits patterns cands =
     (if patterns \<noteq> [] then filter (\<lambda>c. hits c > 0) cands else cands)"

text \<open>
  \<open>list.sort(key=f, reverse=True)\<close>: CPython reverses the list, sorts it stably in
  ascending order of the key, and reverses it again.
\<close>
definition py_sort_reverse :: "('a \<Rightarrow> 'k::linorder) \<Rightarrow> 'a list \<Rightarrow> 'a list" where
  "py_sort_reverse f xs = rev (sort_key f (rev xs))"

definition rank_key :: "candidate \<Rightarrow> real \<times> real" where
  "rank_key c = (score c, mtime c)"

definition select :: "args \<Rightarrow> candidate list \<Rightarrow> candidate list" where
  "select A cands = take (nat (max 0 (limit A))) (py_sort_reverse rank_key cands)"

subsection \<open>\<open>main\<close>: the bundle directory\<close>

definition slug_ok :: "char \<Rightarrow> bool" where
  "slug_ok c = (c \<in> set lower_letters \<union> set upper_letters \<union> set digit_chars \<union> set ''._-'')"

text \<open>
  \<open>re.sub(r"[^a-zA-Z0-9._-]+", "-", s)\<close>: every maximal run of other characters becomes
  one dash; the flag says that the scan is inside such a run.
\<close>
fun sub_runs :: "bool \<Rightarrow> string \<Rightarrow> string" where
  "sub_runs in_run [] = []"
| "sub_runs in_run (c # cs) =
     (if slug_ok c then c # sub_runs False cs
      else if in_run then sub_runs True cs
      else CHR ''-'' # sub_runs True cs)"

definition is_dash :: "char \<Rightarrow> bool" where
  "is_dash c = (c = CHR ''-'')"

definition or_bundle :: "string \<Rightarrow> string" where
  "or_bundle s = (if s = [] then ''bundle'' else s)"

definition bundle_slug :: "args \<Rightarrow> string" where
  "bundle_slug A =
     (if name A \<noteq> [] then or_bundle (strip_chars is_dash (sub_runs False (name A)))
      else if query A \<noteq> [] then
        or_bundle (take 60 (strip_chars is_dash (sub_runs False (str_lower (query A)))))
      else ''bundle'')"

definition bundle_dir :: "env \<Rightarrow> args \<Rightarrow> path" where
  "bundle_dir E A = resolve E (out A) @ [timestamp E @ ''__'' @ bundle_slug A]"

subsection \<open>\<open>main\<close>: copying and writing\<close>

text \<open>
  The copy loop; \<open>shutil.copy2\<close> raises when the source cannot be read, and the copies made
  before that stay. The boolean says whether the loop completed.
\<close>
fun copy_selected :: "env \<Rightarrow> path \<Rightarrow> candidate list \<Rightarrow> effect list \<times> bool" where
  "copy_selected E bd [] = ([], True)"
| "copy_selected E bd (c # cs) =
     (case read_text E (path c) of
        None \<Rightarrow> ([], False)
      | Some text \<Rightarrow>
          (case copy_selected E bd cs of
             (effs, ok) \<Rightarrow> (Copy2 (path c) (bd @ [out_name c]) # effs, ok)))"

text \<open>
  The whole run. The contents of \<open>manifest.json\<close> and \<open>index.md\<close> are not modelled, only
  that they are written and where.
\<close>
definition main :: "env \<Rightarrow> args \<Rightarrow> run" where
  "main E A =
     (let research = resolve E (research_dir A) in
      if \<not> is_dir E research then
        \<lparr>status = Inr 2, effects = [PrintErr], selected = []\<rparr>
      else
        (case build_patterns E A of
           Inl e \<Rightarrow> \<lparr>status = Inl e, effects = [], selected = []\<rparr>
         | Inr patterns \<Rightarrow>
             (case collect E A patterns (sort (rglob E research)) of
                Inl e \<Rightarrow> \<lparr>status = Inl e, effects = [], selected = []\<rparr>
              | Inr cands \<Rightarrow>
                  (let sel = select A (drop_zero_hits patterns cands);
                       bd = bundle_dir E A;
                       dirs = [MkdirP (resolve E (out A)), MkdirP bd]
                   in (case copy_selected E bd sel of
                         (copies, False) \<Rightarrow>
                           \<lparr>status = Inl OSError, effects = dirs @ copies, selected = sel\<rparr>
                       | (copies, True) \<Rightarrow>
                           \<lparr>status = Inr 0,
                            effects = dirs @ copies @
                              [WriteText (bd @ [''manifest.json'']),
                               WriteText (bd @ [''index.md'']),
                               PrintOut bd],
                            selected = sel\<rparr>)))))"

subsection \<open>Path components that flatten without loss\<close>

text \<open>The flattened name before the guard against long names.\<close>
definition flattened :: "path \<Rightarrow> string" where
  "flattened rel = replace_char CHR '' '' ''_'' (replace_char CHR ''/'' ''__'' (str_of_path rel))"

fun has_double_underscore :: "string \<Rightarrow> bool" where
  "has_double_underscore (a # b # cs) =
     ((a = CHR ''_'' \<and> b = CHR ''_'') \<or> has_double_underscore (b # cs))"
| "has_double_underscore cs = False"

text \<open>
  A component that flattening can neither change nor confuse with a separator: it has
  no space, and no underscore at either end or next to another underscore.
\<close>
definition flat_component :: "string \<Rightarrow> bool" where
  "flat_component c =
     (c \<noteq> [] \<and> CHR ''/'' \<notin> set c \<and> CHR '' '' \<notin> set c
      \<and> hd c \<noteq> CHR ''_'' \<and> last c \<noteq> CHR ''_'' \<and> \<not> has_double_underscore c)"

subsection \<open>What a run writes\<close>

text \<open>
  The paths an effect may create or overwrite. \<open>mkdir(parents=True, exist_ok=True)\<close> creates
  the directory and those of its ancestors that are missing; the source of a copy is only
  read.
\<close>
fun write_targets :: "effect \<Rightarrow> path list" where
  "write_targets (MkdirP p) = prefixes p"
| "write_targets (Copy2 src dst) = [dst]"
| "write_targets (WriteText p) = [p]"
| "write_targets PrintErr = []"
| "write_targets (PrintOut p) = []"

text \<open>The files (not directories) that a run writes, in order.\<close>
fun file_targets :: "effect \<Rightarrow> path list" where
  "file_targets (Copy2 src dst) = [dst]"
| "file_targets (WriteText p) = [p]"
| "file_targets e = []"

definition files_written :: "run \<Rightarrow> path list" where
  "files_written r = concat (map file_targets (effects r))"

definition paths_written :: "run \<Rightarrow> path list" where
  "paths_written r = concat (map write_targets (effects r))"

subsection \<open>Example surroundings\<close>

text \<open>
  A small file system without links: \<open>plain_resolve\<close> appends a relative path to the
  current directory and takes an absolute one as it is. \<open>demo_env c t dirs files\<close> has
  the current directory \<open>c\<close>, the clock at \<open>t\<close>, the directories \<open>dirs\<close> and the files
  \<open>files\<close>, each with its modification time and its text (\<open>None\<close>: not readable). Its
  regular expressions are the lower-case words, which match as literals; its digest is
  a constant.
\<close>
definition plain_resolve :: "path \<Rightarrow> string \<Rightarrow> path" where
  "plain_resolve c s = (if s \<noteq> [] \<and> hd s = CHR ''/'' then path_of_str s else c @ path_of_str s)"

definition demo_env ::
  "path \<Rightarrow> real \<Rightarrow> path list \<Rightarrow> (path \<times> real \<times> string option) list \<Rightarrow> env" where
  "demo_env c t dirs files =
     \<lparr>cwd = c, now_ts = t, timestamp = ''20240101-120000'',
      resolve = plain_resolve c,
      is_dir = (\<lambda>p. p \<in> set dirs),
      rglob = (\<lambda>d. filter (strict_prefix d) (dirs @ map fst files)),
      is_file = (\<lambda>p. p \<in> set (map fst files)),
      st_mtime = (\<lambda>p. case map_of files p of Some (m, x) \<Rightarrow> m | None \<Rightarrow> 0),
      read_text = (\<lambda>p. case map_of files p of Some (m, x) \<Rightarrow> x | None \<Rightarrow> None),
      re_valid = (\<lambda>r. \<forall>c \<in> set r. c \<in> set lower_letters),
      re_findall = count_literal,
      sha1_hexdigest = (\<lambda>s. replicate 40 CHR ''0'')\<rparr>"

text \<open>The defaults of the command line.\<close>
definition default_args :: args where
  "default_args = \<lparr>query = '''', regex = False, days = 365, limit = 50,
     research_dir = ''research'', out = ''notebook-bundles'', name = '''', ext = ''md,mdx''\<rparr>"

text \<open>
  The example of the specification: a fresh document that mentions \<open>irsa\<close> three times and
  \<open>s3\<close> twice, and notes that are 200 days old and mention neither.
\<close>
definition example_env :: env where
  "example_env =
     demo_env [''repo''] 100000000
       [[''repo'', ''research''], [''repo'', ''research'', ''aws''], [''repo'', ''research'', ''misc'']]
       [([''repo'', ''research'', ''aws'', ''s3-irsa.md''], 100000000,
           Some ''IRSA irsa Irsa and s3 S3''),
        ([''repo'', ''research'', ''misc'', ''notes.md''], 100000000 - 200 * 86400,
           Some ''nothing here'')]"


text \<open>Three documents, two of them with the same modification time.\<close>
definition tie_env :: env where
  "tie_env =
     demo_env [''repo''] 100000000 [[''repo'', ''research'']]
       [([''repo'', ''research'', ''b.md''], 100000000 - 86400, Some ''b''),
        ([''repo'', ''research'', ''a.md''], 100000000 - 86400, Some ''a''),
        ([''repo'', ''research'', ''c.md''], 100000000, Some ''c'')]"

text \<open>A document whose modification time lies two days in the future.\<close>
definition future_env :: env where
  "future_env =
     demo_env [''repo''] 100000000 [[''repo'', ''research'']]
       [([''repo'', ''research'', ''ahead.md''], 100000000 + 2 * 86400, Some ''x'')]"

text \<open>Two documents whose names differ only in a space and an underscore.\<close>
definition clash_env :: env where
  "clash_env =
     demo_env [''repo''] 100000000 [[''repo'', ''research'']]
       [([''repo'', ''research'', ''a b.md''], 100000000, Some ''one''),
        ([''repo'', ''research'', ''a_b.md''], 100000000, Some ''two'')]"


text \<open>
  An output root inside the research directory, where an earlier run of the same second
  has left its bundle.
\<close>
definition nested_env :: env where
  "nested_env =
     demo_env [''repo''] 100000000
       [[''repo'', ''research''], [''repo'', ''research'', ''out''],
        [''repo'', ''research'', ''out'', ''20240101-120000__bundle'']]
       [([''repo'', ''research'', ''out'', ''20240101-120000__bundle'', ''index.md''],
           100000000, Some ''old index'')]"

section \<open>Properties\<close>

subsection \<open>Auxiliary facts\<close>

lemma fold_hits_sum:
  "fold (\<lambda>pat h. h + f pat) ps (n::nat) = n + sum_list (map f ps)"
  by (induction ps arbitrary: n) auto

lemma count_hits_readable:
  "read_text E p = Some text \<Longrightarrow>
   count_hits E p ps = sum_list (map (\<lambda>pat. findall_count E pat text) ps)"
  by (simp add: count_hits_def fold_hits_sum)


lemma collect_paths:
  "collect E A ps xs = Inr cs \<Longrightarrow> map path cs = filter (admitted E A) xs"
proof (induction xs arbitrary: cs)
  case Nil
  then show ?case by simp
next
  case (Cons x xs)
  show ?case
  proof (cases "admitted E A x")
    case False
    with Cons show ?thesis by simp
  next
    case True
    with Cons.prems obtain rel cs' where
      "relative_to x (cwd E) = Some rel" "collect E A ps xs = Inr cs'"
      "cs = make_candidate E A ps x rel # cs'"
      by (auto split: option.splits sum.splits)
    with Cons.IH True show ?thesis by (simp add: make_candidate_def Let_def)
  qed
qed

lemma collect_members:
  "collect E A ps xs = Inr cs \<Longrightarrow> c \<in> set cs \<Longrightarrow>
   \<exists>rel. relative_to (path c) (cwd E) = Some rel \<and> c = make_candidate E A ps (path c) rel"
proof (induction xs arbitrary: cs)
  case Nil
  then show ?case by simp
next
  case (Cons x xs)
  show ?case
  proof (cases "admitted E A x")
    case False
    with Cons show ?thesis by simp
  next
    case True
    with Cons.prems obtain rel cs' where *:
      "relative_to x (cwd E) = Some rel" "collect E A ps xs = Inr cs'"
      "cs = make_candidate E A ps x rel # cs'"
      by (auto split: option.splits sum.splits)
    have px: "path (make_candidate E A ps x rel) = x"
      by (simp add: make_candidate_def Let_def)
    from Cons.prems(2) * have "c = make_candidate E A ps x rel \<or> c \<in> set cs'" by simp
    then show ?thesis
    proof
      assume "c = make_candidate E A ps x rel"
      with * px show ?thesis by auto
    next
      assume "c \<in> set cs'"
      with Cons.IH * show ?thesis by blast
    qed
  qed
qed



lemma copy_selected_effects:
  "e \<in> set (fst (copy_selected E bd cs)) \<Longrightarrow> \<exists>c \<in> set cs. e = Copy2 (path c) (bd @ [out_name c])"
  by (induction cs arbitrary: e) (auto split: option.splits prod.splits)

lemma set_py_sort_reverse: "set (py_sort_reverse f xs) = set xs"
  by (simp add: py_sort_reverse_def)

lemma select_subset: "set (select A cs) \<subseteq> set cs"
  unfolding select_def using set_take_subset[of _ "py_sort_reverse rank_key cs"]
  by (simp add: set_py_sort_reverse)

lemma drop_zero_hits_subset: "set (drop_zero_hits ps cs) \<subseteq> set cs"
  by (auto simp: drop_zero_hits_def)

lemma main_status:
  "status (main E A) =
     (if \<not> is_dir E (resolve E (research_dir A)) then Inr 2
      else case build_patterns E A of
             Inl e \<Rightarrow> Inl e
           | Inr ps \<Rightarrow>
               (case collect E A ps (sort (rglob E (resolve E (research_dir A)))) of
                  Inl e \<Rightarrow> Inl e
                | Inr cands \<Rightarrow>
                    if snd (copy_selected E (bundle_dir E A) (select A (drop_zero_hits ps cands)))
                    then Inr 0 else Inl OSError))"
  by (auto simp: main_def Let_def split: sum.splits prod.splits bool.splits)

lemma main_selected:
  "is_dir E (resolve E (research_dir A)) \<Longrightarrow> build_patterns E A = Inr ps \<Longrightarrow>
   collect E A ps (sort (rglob E (resolve E (research_dir A)))) = Inr cands \<Longrightarrow>
   selected (main E A) = select A (drop_zero_hits ps cands)"
  by (auto simp: main_def Let_def split: sum.splits prod.splits bool.splits)

lemma make_candidate_fields:
  "path (make_candidate E A ps p rel) = p"
  "mtime (make_candidate E A ps p rel) = st_mtime E p"
  "age_days (make_candidate E A ps p rel) = max 0 ((now_ts E - st_mtime E p) / 86400)"
  "hits (make_candidate E A ps p rel) = (if ps \<noteq> [] then count_hits E p ps else 0)"
  "score (make_candidate E A ps p rel) =
     real (if ps \<noteq> [] then count_hits E p ps else 0) * 100
     + max 0 (1 - max 0 ((now_ts E - st_mtime E p) / 86400) / real_of_int (max 1 (days A))) * 10"
  "out_name (make_candidate E A ps p rel) = safe_flat_name (sha1_hexdigest E) rel"
  by (simp_all add: make_candidate_def Let_def)

lemma collect_hits:
  assumes "collect E A ps xs = Inr cs" and "c \<in> set cs"
  shows "hits c = (if ps \<noteq> [] then count_hits E (path c) ps else 0)"
proof -
  from collect_members [OF assms] obtain rel
    where eq: "c = make_candidate E A ps (path c) rel" by blast
  have "hits (make_candidate E A ps (path c) rel) = (if ps \<noteq> [] then count_hits E (path c) ps else 0)"
    by (rule make_candidate_fields)
  with eq show ?thesis by metis
qed

lemma main_effects:
  "effects (main E A) =
     (if \<not> is_dir E (resolve E (research_dir A)) then [PrintErr]
      else case build_patterns E A of
             Inl e \<Rightarrow> []
           | Inr ps \<Rightarrow>
               (case collect E A ps (sort (rglob E (resolve E (research_dir A)))) of
                  Inl e \<Rightarrow> []
                | Inr cands \<Rightarrow>
                    [MkdirP (resolve E (out A)), MkdirP (bundle_dir E A)]
                    @ fst (copy_selected E (bundle_dir E A) (select A (drop_zero_hits ps cands)))
                    @ (if snd (copy_selected E (bundle_dir E A) (select A (drop_zero_hits ps cands)))
                       then [WriteText (bundle_dir E A @ [''manifest.json'']),
                             WriteText (bundle_dir E A @ [''index.md'']),
                             PrintOut (bundle_dir E A)]
                       else [])))"
  by (auto simp: main_def Let_def split: sum.splits prod.splits bool.splits)

lemma py_sort_reverse_mset: "mset (py_sort_reverse f xs) = mset xs"
  by (simp add: py_sort_reverse_def)

lemma py_sort_reverse_sorted: "sorted_wrt (\<lambda>a b. f b \<le> f a) (py_sort_reverse f xs)"
proof -
  have "sorted (map f (sort_key f (rev xs)))"
    by (rule sorted_sort_key)
  then have "sorted_wrt (\<lambda>a b. f a \<le> f b) (sort_key f (rev xs))"
    by (simp add: sorted_map)
  then show ?thesis
    by (simp add: py_sort_reverse_def sorted_wrt_rev)
qed

lemma py_sort_reverse_stable:
  "filter (\<lambda>y. f y = k) (py_sort_reverse f xs) = filter (\<lambda>y. f y = k) xs"
proof -
  have "filter (\<lambda>y. f y = k) (sort_key f (rev xs)) = filter (\<lambda>y. f y = k) (rev xs)"
    by (rule sort_key_stable)
  then have "rev (filter (\<lambda>y. f y = k) (sort_key f (rev xs))) = filter (\<lambda>y. f y = k) xs"
    by (simp add: rev_filter)
  then show ?thesis
    by (simp add: py_sort_reverse_def rev_filter)
qed

lemma rank_key_le:
  "rank_key b \<le> rank_key a \<longleftrightarrow> score b < score a \<or> (score a = score b \<and> mtime b \<le> mtime a)"
  by (auto simp: rank_key_def less_eq_prod_def)

lemma main_selected_cases:
  "selected (main E A) =
     (if \<not> is_dir E (resolve E (research_dir A)) then []
      else case build_patterns E A of
             Inl e \<Rightarrow> []
           | Inr ps \<Rightarrow>
               (case collect E A ps (sort (rglob E (resolve E (research_dir A)))) of
                  Inl e \<Rightarrow> []
                | Inr cands \<Rightarrow> select A (drop_zero_hits ps cands)))"
  by (auto simp: main_def Let_def split: sum.splits prod.splits bool.splits)

lemma dropWhile_none: "\<forall>ch \<in> set t. \<not> P ch \<Longrightarrow> dropWhile P t = t"
  by (cases t) auto

lemma strip_chars_clean: "\<forall>ch \<in> set t. \<not> P ch \<Longrightarrow> strip_chars P t = t"
  by (simp add: strip_chars_def dropWhile_none)

lemma split_ws_from_tokens:
  assumes "t \<in> set (split_ws_from cur s)" and "\<forall>ch \<in> set cur. \<not> is_space ch"
  shows "t \<noteq> [] \<and> (\<forall>ch \<in> set t. \<not> is_space ch)"
  using assms
proof (induction s arbitrary: cur)
  case Nil
  then have "cur \<noteq> []" "t = rev cur"
    by (simp_all split: if_splits)
  with Nil.prems(2) show ?case
    by simp
next
  case (Cons c cs)
  show ?case
  proof (cases "is_space c")
    case False
    with Cons.prems have "t \<in> set (split_ws_from (c # cur) cs)"
      and "\<forall>ch \<in> set (c # cur). \<not> is_space ch"
      by simp_all
    then show ?thesis
      by (rule Cons.IH)
  next
    case True
    have rest: "t \<in> set (split_ws_from [] cs) \<Longrightarrow> ?thesis"
      by (rule Cons.IH [of "[]"]) simp_all
    show ?thesis
    proof (cases "cur = []")
      case True
      with \<open>is_space c\<close> Cons.prems(1) have "t \<in> set (split_ws_from [] cs)"
        by simp
      then show ?thesis
        by (rule rest)
    next
      case False
      with \<open>is_space c\<close> Cons.prems(1) have "t = rev cur \<or> t \<in> set (split_ws_from [] cs)"
        by simp
      then show ?thesis
      proof
        assume "t = rev cur"
        with False Cons.prems(2) show ?thesis
          by simp
      next
        assume "t \<in> set (split_ws_from [] cs)"
        then show ?thesis
          by (rule rest)
      qed
    qed
  qed
qed

lemma split_ws_from_nonempty:
  assumes "cur \<noteq> [] \<or> (\<exists>ch \<in> set s. \<not> is_space ch)"
  shows "split_ws_from cur s \<noteq> []"
  using assms
proof (induction s arbitrary: cur)
  case Nil
  then show ?case
    by simp
next
  case (Cons c cs)
  show ?case
  proof (cases "is_space c")
    case False
    have "split_ws_from (c # cur) cs \<noteq> []"
      by (rule Cons.IH) simp
    with False show ?thesis
      by simp
  next
    case True
    show ?thesis
    proof (cases "cur = []")
      case False
      with True show ?thesis
        by simp
    next
      case empty: True
      with True Cons.prems have "\<exists>ch \<in> set cs. \<not> is_space ch"
        by auto
      then have "split_ws_from [] cs \<noteq> []"
        by (intro Cons.IH disjI2)
      with True empty show ?thesis
        by simp
    qed
  qed
qed

lemma split_ws_from_empty:
  assumes "\<forall>ch \<in> set s. is_space ch"
  shows "split_ws_from [] s = []"
  using assms by (induction s) simp_all

lemma tokenize_query_split: "tokenize_query q = split_ws q"
proof -
  have clean: "\<forall>t \<in> set (split_ws q). strip_chars is_space t = t \<and> t \<noteq> []"
  proof
    fix t
    assume "t \<in> set (split_ws q)"
    then have "t \<noteq> [] \<and> (\<forall>ch \<in> set t. \<not> is_space ch)"
      unfolding split_ws_def by (rule split_ws_from_tokens) simp
    then show "strip_chars is_space t = t \<and> t \<noteq> []"
      by (simp add: strip_chars_clean)
  qed
  then have "filter (\<lambda>t. strip_chars is_space t \<noteq> []) (split_ws q) = split_ws q"
    by (simp add: filter_id_conv)
  moreover from clean have "map (strip_chars is_space) (split_ws q) = split_ws q"
    by (simp add: map_idI)
  ultimately show ?thesis
    by (simp add: tokenize_query_def)
qed

lemma tokenize_query_nonempty:
  "tokenize_query q \<noteq> [] \<longleftrightarrow> (\<exists>ch \<in> set q. \<not> is_space ch)"
proof
  assume "tokenize_query q \<noteq> []"
  then have "split_ws_from [] q \<noteq> []"
    by (simp add: tokenize_query_split split_ws_def)
  then show "\<exists>ch \<in> set q. \<not> is_space ch"
    using split_ws_from_empty [of q] by blast
next
  assume "\<exists>ch \<in> set q. \<not> is_space ch"
  then have "split_ws_from [] q \<noteq> []"
    by (simp add: split_ws_from_nonempty)
  then show "tokenize_query q \<noteq> []"
    by (simp add: tokenize_query_split split_ws_def)
qed

subsection \<open>The score of a candidate\<close>

lemma lower_char_idem: "lower_char (lower_char c) = lower_char c"
  by (simp add: lower_char_def upper_letters_def lower_letters_def latin_upper_def latin_lower_def)

lemma str_lower_idem: "str_lower (str_lower s) = str_lower s"
  by (simp add: str_lower_def lower_char_idem)

lemma lower_char_comp: "lower_char \<circ> lower_char = lower_char"
  by (rule ext) (simp add: lower_char_idem)

lemma count_literal_lower:
  "count_literal t s = count_literal (str_lower t) (str_lower s)"
proof (induction t s rule: count_literal.induct)
  case (1 t)
  show ?case by (simp add: str_lower_def)
next
  case (2 t c cs)
  then show ?case
    by (simp add: str_lower_def drop_map lower_char_comp lower_char_idem)
qed

text \<open>
  Claim C1. For every candidate that the enumeration admits, the age in days is
  \<open>max(0, (now - mtime) / 86400)\<close>, the score is \<open>hits * 100 + recency * 10\<close> with
  \<open>recency = max(0, 1 - age_days / max(1, days))\<close>, and the hits are the matches of all
  patterns in the whole text of the file, 0 when the query is empty. Literal terms match
  without regard to case.
\<close>
theorem candidate_score_formula:
  assumes "build_patterns E A = Inr ps" and "collect E A ps xs = Inr cs" and "c \<in> set cs"
  shows "mtime c = st_mtime E (path c)
       \<and> age_days c = max 0 ((now_ts E - mtime c) / 86400)
       \<and> score c = real (hits c) * 100
                    + max 0 (1 - age_days c / real_of_int (max 1 (days A))) * 10
       \<and> (query A = [] \<longrightarrow> hits c = 0)
       \<and> (\<forall>text. read_text E (path c) = Some text \<longrightarrow>
             hits c = sum_list (map (\<lambda>pat. findall_count E pat text) ps))
       \<and> (\<forall>t text. findall_count E (Literal t) text
                     = findall_count E (Literal (str_lower t)) (str_lower text))"
proof -
  from collect_members [OF assms(2,3)] obtain rel
    where eq: "c = make_candidate E A ps (path c) rel" by blast
  let ?m = "make_candidate E A ps (path c) rel"
  have m: "mtime ?m = st_mtime E (path c)"
    and a: "age_days ?m = max 0 ((now_ts E - st_mtime E (path c)) / 86400)"
    and h: "hits ?m = (if ps \<noteq> [] then count_hits E (path c) ps else 0)"
    and s: "score ?m = real (if ps \<noteq> [] then count_hits E (path c) ps else 0) * 100
              + max 0 (1 - max 0 ((now_ts E - st_mtime E (path c)) / 86400)
                           / real_of_int (max 1 (days A))) * 10"
    by (rule make_candidate_fields)+
  from eq m have c_mtime: "mtime c = st_mtime E (path c)" by metis
  from eq a c_mtime have c_age: "age_days c = max 0 ((now_ts E - mtime c) / 86400)" by metis
  from eq h have c_hits: "hits c = (if ps \<noteq> [] then count_hits E (path c) ps else 0)" by metis
  from eq s have "score c = real (if ps \<noteq> [] then count_hits E (path c) ps else 0) * 100
              + max 0 (1 - max 0 ((now_ts E - st_mtime E (path c)) / 86400)
                           / real_of_int (max 1 (days A))) * 10" by metis
  with c_hits c_age c_mtime
  have c_score: "score c = real (hits c) * 100
                    + max 0 (1 - age_days c / real_of_int (max 1 (days A))) * 10"
    by simp
  have no_query: "query A = [] \<longrightarrow> hits c = 0"
  proof
    assume "query A = []"
    with assms(1) have "ps = []" by (simp add: build_patterns_def)
    with c_hits show "hits c = 0" by simp
  qed
  have total: "\<forall>text. read_text E (path c) = Some text \<longrightarrow>
             hits c = sum_list (map (\<lambda>pat. findall_count E pat text) ps)"
  proof (intro allI impI)
    fix body
    assume "read_text E (path c) = Some body"
    then have "count_hits E (path c) ps = sum_list (map (\<lambda>pat. findall_count E pat body) ps)"
      by (rule count_hits_readable)
    with c_hits show "hits c = sum_list (map (\<lambda>pat. findall_count E pat body) ps)"
      by (cases "ps = []") simp_all
  qed
  have nocase: "\<forall>t text. findall_count E (Literal t) text
                     = findall_count E (Literal (str_lower t)) (str_lower text)"
  proof (intro allI)
    fix t body
    have "count_literal t body = count_literal (str_lower t) (str_lower body)"
      by (rule count_literal_lower)
    then show "findall_count E (Literal t) body
                = findall_count E (Literal (str_lower t)) (str_lower body)"
      by (simp add: findall_count_def str_lower_def)
  qed
  from c_mtime c_age c_score no_query total nocase show ?thesis by blast
qed

text \<open>
  The example of the specification, searched for \<open>irsa s3\<close> in a window of 180 days: the
  fresh document has 5 hits and the score 510. Without a query it has no hits and the
  score 10.
\<close>
theorem candidate_score_formula_witness:
  "build_patterns example_env (default_args\<lparr>query := ''irsa s3'', days := 180\<rparr>)
     = Inr [Literal ''irsa'', Literal ''s3'']
   \<and> collect example_env (default_args\<lparr>query := ''irsa s3'', days := 180\<rparr>)
        [Literal ''irsa'', Literal ''s3'']
        (sort (rglob example_env (resolve example_env ''research'')))
     = Inr [\<lparr>path = [''repo'', ''research'', ''aws'', ''s3-irsa.md''], mtime = 100000000,
             age_days = 0, hits = 5, score = 510, out_name = ''research__aws__s3-irsa.md''\<rparr>]
   \<and> read_text example_env [''repo'', ''research'', ''aws'', ''s3-irsa.md'']
     = Some ''IRSA irsa Irsa and s3 S3''
   \<and> (5::nat) = sum_list (map (\<lambda>pat. findall_count example_env pat ''IRSA irsa Irsa and s3 S3'')
                          [Literal ''irsa'', Literal ''s3''])
   \<and> (510::real) = real (5::nat) * 100 + max 0 (1 - 0 / real_of_int (max 1 180)) * 10
   \<and> query default_args = []
   \<and> build_patterns example_env default_args = Inr []
   \<and> collect example_env default_args [] [[''repo'', ''research'', ''aws'', ''s3-irsa.md'']]
     = Inr [\<lparr>path = [''repo'', ''research'', ''aws'', ''s3-irsa.md''], mtime = 100000000,
             age_days = 0, hits = 0, score = 10, out_name = ''research__aws__s3-irsa.md''\<rparr>]"
proof -
  let ?A = "default_args\<lparr>query := ''irsa s3'', days := 180\<rparr>"
  let ?ps = "[Literal ''irsa'', Literal ''s3'']"
  let ?p = "[''repo'', ''research'', ''aws'', ''s3-irsa.md'']"
  let ?c = "\<lparr>path = ?p, mtime = 100000000, age_days = 0, hits = 5, score = 510,
            out_name = ''research__aws__s3-irsa.md''\<rparr>"
  let ?d = "\<lparr>path = ?p, mtime = 100000000, age_days = 0, hits = 0, score = 10,
            out_name = ''research__aws__s3-irsa.md''\<rparr>"
  have pats: "build_patterns example_env ?A = Inr ?ps"
    by code_simp
  have cands: "collect example_env ?A ?ps (sort (rglob example_env (resolve example_env ''research'')))
               = Inr [?c]"
    by code_simp
  have body: "read_text example_env ?p = Some ''IRSA irsa Irsa and s3 S3''"
    by code_simp
  have q0: "query default_args = []"
    by code_simp
  have pats0: "build_patterns example_env default_args = Inr []"
    by code_simp
  have cands0: "collect example_env default_args [] [?p] = Inr [?d]"
    by code_simp
  have mem: "?c \<in> set [?c]" and mem0: "?d \<in> set [?d]"
    by simp_all
  from candidate_score_formula [OF pats cands mem] body
  have sum: "(5::nat) = sum_list (map (\<lambda>pat. findall_count example_env pat ''IRSA irsa Irsa and s3 S3'') ?ps)"
    and sc: "(510::real) = real (5::nat) * 100 + max 0 (1 - 0 / real_of_int (max 1 180)) * 10"
    by simp_all
  from candidate_score_formula [OF pats0 cands0 mem0] q0
  have "hits ?d = 0"
    by blast
  with pats cands body sum sc q0 pats0 cands0 show ?thesis
    by blast
qed

subsection \<open>Ranking and the limit\<close>

text \<open>
  Claim C2. In a run that reaches the selection, the selected candidates are the first
  \<open>max(0, limit)\<close> of the candidates in descending order of \<open>(score, mtime)\<close>: the ranked
  list is a rearrangement of the candidates, a higher score comes first, among equal
  scores the newer modification time comes first, and candidates with the same score and
  the same modification time keep the order in which they were collected. With a limit
  of 0 or less nothing is selected and the run writes only \<open>manifest.json\<close> and
  \<open>index.md\<close> into the bundle directory.
\<close>
theorem selection_is_ranked_prefix:
  assumes "is_dir E (resolve E (research_dir A))"
    and "build_patterns E A = Inr ps"
    and "collect E A ps (sort (rglob E (resolve E (research_dir A)))) = Inr cands"
  shows "(\<exists>ranked.
           selected (main E A) = take (nat (max 0 (limit A))) ranked
         \<and> mset ranked = mset (drop_zero_hits ps cands)
         \<and> sorted_wrt (\<lambda>a b. score b < score a \<or> (score a = score b \<and> mtime b \<le> mtime a)) ranked
         \<and> (\<forall>k. filter (\<lambda>c. rank_key c = k) ranked
                  = filter (\<lambda>c. rank_key c = k) (drop_zero_hits ps cands)))
         \<and> (limit A \<le> 0 \<longrightarrow>
               selected (main E A) = []
             \<and> status (main E A) = Inr 0
             \<and> files_written (main E A)
                 = [bundle_dir E A @ [''manifest.json''], bundle_dir E A @ [''index.md'']])"
proof -
  let ?cs = "drop_zero_hits ps cands"
  let ?ranked = "py_sort_reverse rank_key ?cs"
  have sel: "selected (main E A) = take (nat (max 0 (limit A))) ?ranked"
    using main_selected [OF assms] by (simp add: select_def)
  have perm: "mset ?ranked = mset ?cs"
    by (rule py_sort_reverse_mset)
  have "sorted_wrt (\<lambda>a b. rank_key b \<le> rank_key a) ?ranked"
    by (rule py_sort_reverse_sorted)
  then have desc: "sorted_wrt (\<lambda>a b. score b < score a \<or> (score a = score b \<and> mtime b \<le> mtime a)) ?ranked"
    by (simp add: rank_key_le)
  have stable: "\<forall>k. filter (\<lambda>c. rank_key c = k) ?ranked = filter (\<lambda>c. rank_key c = k) ?cs"
    by (simp add: py_sort_reverse_stable)
  have none: "limit A \<le> 0 \<longrightarrow>
               selected (main E A) = []
             \<and> status (main E A) = Inr 0
             \<and> files_written (main E A)
                 = [bundle_dir E A @ [''manifest.json''], bundle_dir E A @ [''index.md'']]"
  proof
    assume "limit A \<le> 0"
    then have empty: "select A ?cs = []"
      by (simp add: select_def)
    with main_selected [OF assms] have s: "selected (main E A) = []"
      by simp
    from assms empty have st: "status (main E A) = Inr 0"
      by (simp add: main_status)
    from assms empty have "effects (main E A) =
        [MkdirP (resolve E (out A)), MkdirP (bundle_dir E A),
         WriteText (bundle_dir E A @ [''manifest.json'']),
         WriteText (bundle_dir E A @ [''index.md'']),
         PrintOut (bundle_dir E A)]"
      by (simp add: main_effects)
    then have "files_written (main E A)
                 = [bundle_dir E A @ [''manifest.json''], bundle_dir E A @ [''index.md'']]"
      by (simp add: files_written_def)
    with s st show "selected (main E A) = []
             \<and> status (main E A) = Inr 0
             \<and> files_written (main E A)
                 = [bundle_dir E A @ [''manifest.json''], bundle_dir E A @ [''index.md'']]"
      by blast
  qed
  from sel perm desc stable
  have "\<exists>ranked.
           selected (main E A) = take (nat (max 0 (limit A))) ranked
         \<and> mset ranked = mset (drop_zero_hits ps cands)
         \<and> sorted_wrt (\<lambda>a b. score b < score a \<or> (score a = score b \<and> mtime b \<le> mtime a)) ranked
         \<and> (\<forall>k. filter (\<lambda>c. rank_key c = k) ranked
                  = filter (\<lambda>c. rank_key c = k) (drop_zero_hits ps cands))"
    by (intro exI [of _ ?ranked] conjI)
  with none show ?thesis
    by (rule conjI [rotated])
qed

lemma tie_env_is_dir:
  "is_dir tie_env (resolve tie_env (research_dir (default_args\<lparr>limit := 0\<rparr>)))"
  by code_simp

lemma tie_env_patterns:
  "build_patterns tie_env (default_args\<lparr>limit := 0\<rparr>) = Inr []"
  by code_simp

lemma tie_env_limit:
  "limit (default_args\<lparr>limit := 0\<rparr>) \<le> 0"
  by code_simp

lemma tie_env_bundle_dir:
  "bundle_dir tie_env (default_args\<lparr>limit := 0\<rparr>)
   = [''repo'', ''notebook-bundles'', ''20240101-120000__bundle'']"
  by code_simp

lemma tie_env_candidates:
  "collect tie_env (default_args\<lparr>limit := 0\<rparr>) []
     (sort (rglob tie_env (resolve tie_env (research_dir (default_args\<lparr>limit := 0\<rparr>)))))
   = Inr [\<lparr>path = [''repo'', ''research'', ''a.md''], mtime = 99913600, age_days = 1, hits = 0,
            score = 728 / 73, out_name = ''research__a.md''\<rparr>,
          \<lparr>path = [''repo'', ''research'', ''b.md''], mtime = 99913600, age_days = 1, hits = 0,
            score = 728 / 73, out_name = ''research__b.md''\<rparr>,
          \<lparr>path = [''repo'', ''research'', ''c.md''], mtime = 100000000, age_days = 0, hits = 0,
            score = 10, out_name = ''research__c.md''\<rparr>]"
  by code_simp

lemma tie_env_top_two:
  "map path (selected (main tie_env (default_args\<lparr>limit := 2\<rparr>)))
   = [[''repo'', ''research'', ''c.md''], [''repo'', ''research'', ''a.md'']]"
  by code_simp

text \<open>
  Three fresh documents and no query: \<open>a.md\<close> and \<open>b.md\<close> have the same score and the same
  modification time, \<open>c.md\<close> is newer. With the limit 2 the selection is \<open>c.md\<close>, then
  \<open>a.md\<close>; with the limit 0 it is empty and only the manifest and the index are written.
\<close>
theorem selection_is_ranked_prefix_witness:
  "is_dir tie_env (resolve tie_env (research_dir (default_args\<lparr>limit := 0\<rparr>)))
   \<and> build_patterns tie_env (default_args\<lparr>limit := 0\<rparr>) = Inr []
   \<and> limit (default_args\<lparr>limit := 0\<rparr>) \<le> 0
   \<and> selected (main tie_env (default_args\<lparr>limit := 0\<rparr>)) = []
   \<and> status (main tie_env (default_args\<lparr>limit := 0\<rparr>)) = Inr 0
   \<and> files_written (main tie_env (default_args\<lparr>limit := 0\<rparr>))
       = [[''repo'', ''notebook-bundles'', ''20240101-120000__bundle'', ''manifest.json''],
          [''repo'', ''notebook-bundles'', ''20240101-120000__bundle'', ''index.md'']]
   \<and> map path (selected (main tie_env (default_args\<lparr>limit := 2\<rparr>)))
       = [[''repo'', ''research'', ''c.md''], [''repo'', ''research'', ''a.md'']]"
proof -
  from selection_is_ranked_prefix [OF tie_env_is_dir tie_env_patterns tie_env_candidates]
  have "limit (default_args\<lparr>limit := 0\<rparr>) \<le> 0 \<longrightarrow>
        selected (main tie_env (default_args\<lparr>limit := 0\<rparr>)) = []
      \<and> status (main tie_env (default_args\<lparr>limit := 0\<rparr>)) = Inr 0
      \<and> files_written (main tie_env (default_args\<lparr>limit := 0\<rparr>))
          = [bundle_dir tie_env (default_args\<lparr>limit := 0\<rparr>) @ [''manifest.json''],
             bundle_dir tie_env (default_args\<lparr>limit := 0\<rparr>) @ [''index.md'']]"
    by (rule conjunct2)
  from this tie_env_limit
  have "selected (main tie_env (default_args\<lparr>limit := 0\<rparr>)) = []
      \<and> status (main tie_env (default_args\<lparr>limit := 0\<rparr>)) = Inr 0
      \<and> files_written (main tie_env (default_args\<lparr>limit := 0\<rparr>))
          = [bundle_dir tie_env (default_args\<lparr>limit := 0\<rparr>) @ [''manifest.json''],
             bundle_dir tie_env (default_args\<lparr>limit := 0\<rparr>) @ [''index.md'']]"
    by (rule mp)
  then have "selected (main tie_env (default_args\<lparr>limit := 0\<rparr>)) = []
      \<and> status (main tie_env (default_args\<lparr>limit := 0\<rparr>)) = Inr 0
      \<and> files_written (main tie_env (default_args\<lparr>limit := 0\<rparr>))
       = [[''repo'', ''notebook-bundles'', ''20240101-120000__bundle'', ''manifest.json''],
          [''repo'', ''notebook-bundles'', ''20240101-120000__bundle'', ''index.md'']]"
    by (simp only: tie_env_bundle_dir append.simps)
  with tie_env_is_dir tie_env_patterns tie_env_limit tie_env_top_two show ?thesis
    by (intro conjI) (erule conjE | assumption)+
qed

subsection \<open>Zero-hit candidates\<close>

text \<open>
  Claim C3 as stated fails: a query that consists of white space only is not empty, yet
  it yields no pattern, so nothing is filtered and the selected candidates have 0 hits.
\<close>
theorem whitespace_query_selects_zero_hits:
  "query (default_args\<lparr>query := '' ''\<rparr>) \<noteq> []
   \<and> map hits (selected (main example_env (default_args\<lparr>query := '' ''\<rparr>))) = [0, 0]"
  by code_simp

lemma patterns_nonempty:
  assumes "build_patterns E A = Inr ps" and "query A \<noteq> []"
    and "regex A \<or> (\<exists>ch \<in> set (query A). \<not> is_space ch)"
  shows "ps \<noteq> []"
proof (cases "regex A")
  case True
  with assms(1,2) show ?thesis
    by (auto simp: build_patterns_def split: if_splits)
next
  case False
  with assms(3) have "tokenize_query (query A) \<noteq> []"
    by (simp add: tokenize_query_nonempty)
  with False assms(1,2) show ?thesis
    by (auto simp: build_patterns_def)
qed

lemma patterns_empty:
  assumes "\<not> regex A" and "\<forall>ch \<in> set (query A). is_space ch"
  shows "build_patterns E A = Inr []"
proof -
  from assms(2) have "\<not> (\<exists>ch \<in> set (query A). \<not> is_space ch)"
    by blast
  then have "tokenize_query (query A) = []"
    using tokenize_query_nonempty [of "query A"] by blast
  with assms(1) show ?thesis
    by (simp add: build_patterns_def)
qed

lemma selected_reached:
  assumes "c \<in> set (selected (main E A))"
  obtains ps cands where "is_dir E (resolve E (research_dir A))"
    and "build_patterns E A = Inr ps"
    and "collect E A ps (sort (rglob E (resolve E (research_dir A)))) = Inr cands"
    and "selected (main E A) = select A (drop_zero_hits ps cands)"
proof -
  from assms have dir: "is_dir E (resolve E (research_dir A))"
    by (auto simp: main_selected_cases split: if_splits)
  from assms dir obtain ps where pats: "build_patterns E A = Inr ps"
    by (cases "build_patterns E A") (auto simp: main_selected_cases)
  from assms dir pats obtain cands where
    cands: "collect E A ps (sort (rglob E (resolve E (research_dir A)))) = Inr cands"
    by (cases "collect E A ps (sort (rglob E (resolve E (research_dir A))))")
       (auto simp: main_selected_cases)
  from dir pats cands have "selected (main E A) = select A (drop_zero_hits ps cands)"
    by (rule main_selected)
  with dir pats cands show ?thesis
    by (rule that)
qed

text \<open>
  Claim C3, amended. When the query is not empty and either is taken as a regular
  expression or has a character that is not white space, every selected candidate has
  at least one hit. When the query is not taken as a regular expression and has nothing
  but white space, there is no pattern, no candidate is dropped for its hits, and every
  selected candidate has 0 hits.
\<close>
theorem selected_have_hits:
  "(query A \<noteq> [] \<and> (regex A \<or> (\<exists>ch \<in> set (query A). \<not> is_space ch)) \<longrightarrow>
      (\<forall>c \<in> set (selected (main E A)). hits c > 0))
   \<and> (\<not> regex A \<and> (\<forall>ch \<in> set (query A). is_space ch) \<longrightarrow>
        build_patterns E A = Inr []
      \<and> (\<forall>cands. drop_zero_hits [] cands = cands)
      \<and> (\<forall>cands. is_dir E (resolve E (research_dir A))
            \<and> collect E A [] (sort (rglob E (resolve E (research_dir A)))) = Inr cands \<longrightarrow>
            selected (main E A) = select A cands)
      \<and> (\<forall>c \<in> set (selected (main E A)). hits c = 0))"
proof (intro conjI impI)
  assume q: "query A \<noteq> [] \<and> (regex A \<or> (\<exists>ch \<in> set (query A). \<not> is_space ch))"
  show "\<forall>c \<in> set (selected (main E A)). hits c > 0"
  proof
    fix c
    assume "c \<in> set (selected (main E A))"
    then obtain ps cands where pats: "build_patterns E A = Inr ps"
      and sel: "c \<in> set (select A (drop_zero_hits ps cands))"
      by (metis selected_reached)
    from q have "query A \<noteq> []" and "regex A \<or> (\<exists>ch \<in> set (query A). \<not> is_space ch)"
      by blast+
    with pats have "ps \<noteq> []"
      by (rule patterns_nonempty)
    moreover from sel select_subset have "c \<in> set (drop_zero_hits ps cands)"
      by blast
    ultimately show "hits c > 0"
      by (simp add: drop_zero_hits_def)
  qed
next
  assume w: "\<not> regex A \<and> (\<forall>ch \<in> set (query A). is_space ch)"
  then have "\<not> regex A" and "\<forall>ch \<in> set (query A). is_space ch"
    by blast+
  then show none: "build_patterns E A = Inr []"
    by (rule patterns_empty)
  show "\<forall>cands. drop_zero_hits [] cands = cands"
    by (simp add: drop_zero_hits_def)
  show "\<forall>cands. is_dir E (resolve E (research_dir A))
            \<and> collect E A [] (sort (rglob E (resolve E (research_dir A)))) = Inr cands \<longrightarrow>
            selected (main E A) = select A cands"
    using none by (simp add: main_selected_cases drop_zero_hits_def)
  show "\<forall>c \<in> set (selected (main E A)). hits c = 0"
  proof
    fix c
    assume "c \<in> set (selected (main E A))"
    then obtain ps cands where pats: "build_patterns E A = Inr ps"
      and cands: "collect E A ps (sort (rglob E (resolve E (research_dir A)))) = Inr cands"
      and sel: "c \<in> set (select A (drop_zero_hits ps cands))"
      by (metis selected_reached)
    from pats none have "ps = []"
      by simp
    from sel select_subset drop_zero_hits_subset have "c \<in> set cands"
      by blast
    with cands have "hits c = (if ps \<noteq> [] then count_hits E (path c) ps else 0)"
      by (rule collect_hits)
    with \<open>ps = []\<close> show "hits c = 0"
      by simp
  qed
qed

lemma example_env_two_candidates:
  "collect example_env (default_args\<lparr>query := ''irsa s3''\<rparr>) [Literal ''irsa'', Literal ''s3'']
     (sort (rglob example_env (resolve example_env (research_dir (default_args\<lparr>query := ''irsa s3''\<rparr>)))))
   = Inr [\<lparr>path = [''repo'', ''research'', ''aws'', ''s3-irsa.md''], mtime = 100000000,
            age_days = 0, hits = 5, score = 510, out_name = ''research__aws__s3-irsa.md''\<rparr>,
          \<lparr>path = [''repo'', ''research'', ''misc'', ''notes.md''], mtime = 82720000,
            age_days = 200, hits = 0, score = 330 / 73, out_name = ''research__misc__notes.md''\<rparr>]"
  by code_simp

lemma example_env_search:
  "selected (main example_env (default_args\<lparr>query := ''irsa s3''\<rparr>))
   = [\<lparr>path = [''repo'', ''research'', ''aws'', ''s3-irsa.md''], mtime = 100000000,
        age_days = 0, hits = 5, score = 510, out_name = ''research__aws__s3-irsa.md''\<rparr>]"
  by code_simp

lemma example_env_blank_search:
  "selected (main example_env (default_args\<lparr>query := [CHR 0x20, CHR 0xA0]\<rparr>))
   = [\<lparr>path = [''repo'', ''research'', ''aws'', ''s3-irsa.md''], mtime = 100000000,
        age_days = 0, hits = 0, score = 10, out_name = ''research__aws__s3-irsa.md''\<rparr>,
      \<lparr>path = [''repo'', ''research'', ''misc'', ''notes.md''], mtime = 82720000,
        age_days = 200, hits = 0, score = 330 / 73, out_name = ''research__misc__notes.md''\<rparr>]"
  by code_simp

lemma example_queries:
  "query (default_args\<lparr>query := ''irsa s3''\<rparr>) \<noteq> []"
  "CHR ''i'' \<in> set (query (default_args\<lparr>query := ''irsa s3''\<rparr>))"
  "\<not> is_space CHR ''i''"
  "\<not> regex (default_args\<lparr>query := [CHR 0x20, CHR 0xA0]\<rparr>)"
  "\<forall>ch \<in> set (query (default_args\<lparr>query := [CHR 0x20, CHR 0xA0]\<rparr>)). is_space ch"
  "query (default_args\<lparr>query := [CHR 0x20, CHR 0xA0]\<rparr>) \<noteq> []"
  by code_simp+

text \<open>
  The example of the specification with the default window of 365 days. Both documents
  are candidates for the search \<open>irsa s3\<close>, the notes with 0 hits; the notes are dropped
  and only the document with 5 hits is selected. For a query of a space and a no-break
  space there is no pattern, and both documents are selected with 0 hits.
\<close>
theorem selected_have_hits_witness:
  "query (default_args\<lparr>query := ''irsa s3''\<rparr>) \<noteq> []
   \<and> CHR ''i'' \<in> set (query (default_args\<lparr>query := ''irsa s3''\<rparr>))
   \<and> \<not> is_space CHR ''i''
   \<and> collect example_env (default_args\<lparr>query := ''irsa s3''\<rparr>) [Literal ''irsa'', Literal ''s3'']
     (sort (rglob example_env (resolve example_env (research_dir (default_args\<lparr>query := ''irsa s3''\<rparr>)))))
     = Inr [\<lparr>path = [''repo'', ''research'', ''aws'', ''s3-irsa.md''], mtime = 100000000,
            age_days = 0, hits = 5, score = 510, out_name = ''research__aws__s3-irsa.md''\<rparr>,
          \<lparr>path = [''repo'', ''research'', ''misc'', ''notes.md''], mtime = 82720000,
            age_days = 200, hits = 0, score = 330 / 73, out_name = ''research__misc__notes.md''\<rparr>]
   \<and> selected (main example_env (default_args\<lparr>query := ''irsa s3''\<rparr>))
     = [\<lparr>path = [''repo'', ''research'', ''aws'', ''s3-irsa.md''], mtime = 100000000,
          age_days = 0, hits = 5, score = 510, out_name = ''research__aws__s3-irsa.md''\<rparr>]
   \<and> 0 < hits \<lparr>path = [''repo'', ''research'', ''aws'', ''s3-irsa.md''], mtime = 100000000,
          age_days = 0, hits = 5, score = 510, out_name = ''research__aws__s3-irsa.md''\<rparr>
   \<and> query (default_args\<lparr>query := [CHR 0x20, CHR 0xA0]\<rparr>) \<noteq> []
   \<and> \<not> regex (default_args\<lparr>query := [CHR 0x20, CHR 0xA0]\<rparr>)
   \<and> is_space CHR 0x20 \<and> is_space CHR 0xA0
   \<and> build_patterns example_env (default_args\<lparr>query := [CHR 0x20, CHR 0xA0]\<rparr>) = Inr []
   \<and> map hits (selected (main example_env (default_args\<lparr>query := [CHR 0x20, CHR 0xA0]\<rparr>))) = [0, 0]"
proof -
  let ?A = "default_args\<lparr>query := ''irsa s3''\<rparr>"
  let ?B = "default_args\<lparr>query := [CHR 0x20, CHR 0xA0]\<rparr>"
  let ?c = "\<lparr>path = [''repo'', ''research'', ''aws'', ''s3-irsa.md''], mtime = 100000000,
          age_days = 0, hits = 5, score = 510, out_name = ''research__aws__s3-irsa.md''\<rparr>"
  from example_queries(1,2,3)
  have searched: "query ?A \<noteq> [] \<and> (regex ?A \<or> (\<exists>ch \<in> set (query ?A). \<not> is_space ch))"
    by blast
  from selected_have_hits [of ?A example_env]
  have "query ?A \<noteq> [] \<and> (regex ?A \<or> (\<exists>ch \<in> set (query ?A). \<not> is_space ch)) \<longrightarrow>
        (\<forall>c \<in> set (selected (main example_env ?A)). hits c > 0)"
    by (rule conjunct1)
  from this searched have "\<forall>c \<in> set (selected (main example_env ?A)). hits c > 0"
    by (rule mp)
  moreover have "?c \<in> set (selected (main example_env ?A))"
    by (simp only: example_env_search list.set_intros)
  ultimately have pos: "0 < hits ?c"
    by (rule bspec)
  from example_queries(4,5)
  have blank: "\<not> regex ?B \<and> (\<forall>ch \<in> set (query ?B). is_space ch)"
    by (rule conjI)
  from selected_have_hits [of ?B example_env]
  have "\<not> regex ?B \<and> (\<forall>ch \<in> set (query ?B). is_space ch) \<longrightarrow>
        build_patterns example_env ?B = Inr []
      \<and> (\<forall>cands. drop_zero_hits [] cands = cands)
      \<and> (\<forall>cands. is_dir example_env (resolve example_env (research_dir ?B))
            \<and> collect example_env ?B [] (sort (rglob example_env (resolve example_env (research_dir ?B)))) = Inr cands \<longrightarrow>
            selected (main example_env ?B) = select ?B cands)
      \<and> (\<forall>c \<in> set (selected (main example_env ?B)). hits c = 0)"
    by (rule conjunct2)
  from this blank
  have "build_patterns example_env ?B = Inr []
      \<and> (\<forall>cands. drop_zero_hits [] cands = cands)
      \<and> (\<forall>cands. is_dir example_env (resolve example_env (research_dir ?B))
            \<and> collect example_env ?B [] (sort (rglob example_env (resolve example_env (research_dir ?B)))) = Inr cands \<longrightarrow>
            selected (main example_env ?B) = select ?B cands)
      \<and> (\<forall>c \<in> set (selected (main example_env ?B)). hits c = 0)"
    by (rule mp)
  then have nopat: "build_patterns example_env ?B = Inr []"
    by (rule conjunct1)
  have zero: "map hits (selected (main example_env ?B)) = [0, 0]"
    by (simp only: example_env_blank_search) simp
  have sp: "is_space CHR 0x20" "is_space CHR 0xA0"
    by code_simp+
  from example_queries(1,2,3) example_env_two_candidates example_env_search pos
    example_queries(6,4) sp nopat zero
  show ?thesis
    by (intro conjI)
qed

subsection \<open>Admission to the candidates\<close>

text \<open>
  Claim C4 as stated fails for a negative day window: the cutoff then lies in the future,
  a file modified after it is admitted, and its age, which is never negative, exceeds the
  window.
\<close>
theorem future_file_admitted:
  "collect future_env (default_args\<lparr>days := - 1\<rparr>) []
     (sort (rglob future_env (resolve future_env (research_dir (default_args\<lparr>days := - 1\<rparr>)))))
   = Inr [\<lparr>path = [''repo'', ''research'', ''ahead.md''], mtime = 100172800, age_days = 0,
            hits = 0, score = 10, out_name = ''research__ahead.md''\<rparr>]
   \<and> real_of_int (days (default_args\<lparr>days := - 1\<rparr>))
       < age_days \<lparr>path = [''repo'', ''research'', ''ahead.md''], mtime = 100172800, age_days = 0,
            hits = 0, score = 10, out_name = ''research__ahead.md''\<rparr>"
  by code_simp

text \<open>
  Claim C4, amended. When the enumeration succeeds, a path is the path of a candidate
  if and only if it is listed under the research directory, is a regular file, has its
  lower-cased extension in the allow-list and was modified at or after
  \<open>now - days * 86400\<close>. For a day window that is not negative, a file whose age in days
  exceeds the window is not a candidate.
\<close>
theorem candidate_iff_admitted:
  assumes "collect E A ps xs = Inr cs"
  shows "(p \<in> path ` set cs \<longleftrightarrow>
            p \<in> set xs \<and> is_file E p \<and> str_lower (path_suffix p) \<in> parse_exts (ext A)
          \<and> now_ts E - real_of_int (days A) * 86400 \<le> st_mtime E p)
       \<and> (0 \<le> days A \<and> real_of_int (days A) < max 0 ((now_ts E - st_mtime E p) / 86400)
            \<longrightarrow> p \<notin> path ` set cs)"
proof -
  from assms have "map path cs = filter (admitted E A) xs"
    by (rule collect_paths)
  then have "set (map path cs) = set (filter (admitted E A) xs)"
    by simp
  then have mem: "p \<in> path ` set cs \<longleftrightarrow> p \<in> set xs \<and> admitted E A p"
    by auto
  have adm: "admitted E A p \<longleftrightarrow>
               is_file E p \<and> str_lower (path_suffix p) \<in> parse_exts (ext A)
             \<and> now_ts E - real_of_int (days A) * 86400 \<le> st_mtime E p"
    by (auto simp: admitted_def cutoff_def)
  have old: "0 \<le> days A \<and> real_of_int (days A) < max 0 ((now_ts E - st_mtime E p) / 86400)
            \<longrightarrow> p \<notin> path ` set cs"
  proof
    assume a: "0 \<le> days A \<and> real_of_int (days A) < max 0 ((now_ts E - st_mtime E p) / 86400)"
    then have "real_of_int (days A) < (now_ts E - st_mtime E p) / 86400"
      by (simp add: max_def split: if_splits)
    then have "real_of_int (days A) * 86400 < now_ts E - st_mtime E p"
      by (simp add: pos_less_divide_eq)
    then have "\<not> now_ts E - real_of_int (days A) * 86400 \<le> st_mtime E p"
      by simp
    with mem adm show "p \<notin> path ` set cs"
      by blast
  qed
  from mem adm old show ?thesis
    by blast
qed

lemma example_env_window:
  "collect example_env (default_args\<lparr>days := 180\<rparr>) []
     [[''repo'', ''research'', ''aws'', ''s3-irsa.md''], [''repo'', ''research'', ''misc'', ''notes.md'']]
   = Inr [\<lparr>path = [''repo'', ''research'', ''aws'', ''s3-irsa.md''], mtime = 100000000,
            age_days = 0, hits = 0, score = 10, out_name = ''research__aws__s3-irsa.md''\<rparr>]"
  by code_simp

lemma example_env_notes_old:
  "0 \<le> days (default_args\<lparr>days := 180\<rparr>)
   \<and> real_of_int (days (default_args\<lparr>days := 180\<rparr>))
       < max 0 ((now_ts example_env
                 - st_mtime example_env [''repo'', ''research'', ''misc'', ''notes.md'']) / 86400)"
  by code_simp

text \<open>
  The example of the specification with a window of 180 days: the notes, 200 days old,
  are not a candidate.
\<close>
theorem candidate_iff_admitted_witness:
  "collect example_env (default_args\<lparr>days := 180\<rparr>) []
     [[''repo'', ''research'', ''aws'', ''s3-irsa.md''], [''repo'', ''research'', ''misc'', ''notes.md'']]
   = Inr [\<lparr>path = [''repo'', ''research'', ''aws'', ''s3-irsa.md''], mtime = 100000000,
            age_days = 0, hits = 0, score = 10, out_name = ''research__aws__s3-irsa.md''\<rparr>]
   \<and> 0 \<le> days (default_args\<lparr>days := 180\<rparr>)
   \<and> real_of_int (days (default_args\<lparr>days := 180\<rparr>))
       < max 0 ((now_ts example_env
                 - st_mtime example_env [''repo'', ''research'', ''misc'', ''notes.md'']) / 86400)
   \<and> [''repo'', ''research'', ''misc'', ''notes.md'']
       \<notin> path ` set [\<lparr>path = [''repo'', ''research'', ''aws'', ''s3-irsa.md''], mtime = 100000000,
            age_days = 0, hits = 0, score = 10, out_name = ''research__aws__s3-irsa.md''\<rparr>]"
proof -
  from candidate_iff_admitted [OF example_env_window, of "[''repo'', ''research'', ''misc'', ''notes.md'']"]
  have "0 \<le> days (default_args\<lparr>days := 180\<rparr>)
        \<and> real_of_int (days (default_args\<lparr>days := 180\<rparr>))
            < max 0 ((now_ts example_env
                 - st_mtime example_env [''repo'', ''research'', ''misc'', ''notes.md'']) / 86400)
        \<longrightarrow> [''repo'', ''research'', ''misc'', ''notes.md'']
       \<notin> path ` set [\<lparr>path = [''repo'', ''research'', ''aws'', ''s3-irsa.md''], mtime = 100000000,
            age_days = 0, hits = 0, score = 10, out_name = ''research__aws__s3-irsa.md''\<rparr>]"
    by (rule conjunct2)
  from this example_env_notes_old
  have "[''repo'', ''research'', ''misc'', ''notes.md'']
       \<notin> path ` set [\<lparr>path = [''repo'', ''research'', ''aws'', ''s3-irsa.md''], mtime = 100000000,
            age_days = 0, hits = 0, score = 10, out_name = ''research__aws__s3-irsa.md''\<rparr>]"
    by (rule mp)
  with example_env_window example_env_notes_old show ?thesis
    by (intro conjI) (erule conjE | assumption)+
qed

subsection \<open>Flattened output names\<close>

text \<open>
  Claim C5 as stated fails: a space is replaced by an underscore, so two different
  relative paths that differ only in a space and an underscore get the same output name,
  and the second copy overwrites the first.
\<close>
theorem flat_names_collide:
  "map path (selected (main clash_env default_args))
     = [[''repo'', ''research'', ''a b.md''], [''repo'', ''research'', ''a_b.md'']]
   \<and> relative_to [''repo'', ''research'', ''a b.md''] (cwd clash_env) = Some [''research'', ''a b.md'']
   \<and> relative_to [''repo'', ''research'', ''a_b.md''] (cwd clash_env) = Some [''research'', ''a_b.md'']
   \<and> [''research'', ''a b.md''] \<noteq> [''research'', ''a_b.md'']
   \<and> map out_name (selected (main clash_env default_args))
     = [''research__a_b.md'', ''research__a_b.md'']
   \<and> files_written (main clash_env default_args)
     = [[''repo'', ''notebook-bundles'', ''20240101-120000__bundle'', ''research__a_b.md''],
        [''repo'', ''notebook-bundles'', ''20240101-120000__bundle'', ''research__a_b.md''],
        [''repo'', ''notebook-bundles'', ''20240101-120000__bundle'', ''manifest.json''],
        [''repo'', ''notebook-bundles'', ''20240101-120000__bundle'', ''index.md'']]"
  by code_simp

lemma replace_char_append:
  "replace_char a b (x @ y) = replace_char a b x @ replace_char a b y"
  by (simp add: replace_char_def)

lemma replace_char_Cons:
  "replace_char a b (c # s) = (if c = a then b else [c]) @ replace_char a b s"
  by (simp add: replace_char_def)

lemma replace_char_absent: "a \<notin> set x \<Longrightarrow> replace_char a b x = x"
  by (induction x) (auto simp: replace_char_def)

lemma replace_sep_join:
  "\<forall>c \<in> set rel. CHR ''/'' \<notin> set c \<Longrightarrow>
   replace_char CHR ''/'' ''__'' (join_sep ''/'' rel) = join_sep ''__'' rel"
proof (induction "''/''" rel rule: join_sep.induct)
  case 1
  show ?case by (simp add: replace_char_def)
next
  case (2 x)
  then show ?case by (simp add: replace_char_absent)
next
  case (3 x y ys)
  then have "replace_char CHR ''/'' ''__'' (join_sep ''/'' (y # ys)) = join_sep ''__'' (y # ys)"
    by simp
  moreover from 3 have "replace_char CHR ''/'' ''__'' x = x"
    by (simp add: replace_char_absent)
  ultimately show ?case
    by (simp add: replace_char_append replace_char_Cons)
qed

lemma join_no_space:
  "\<forall>c \<in> set rel. CHR '' '' \<notin> set c \<Longrightarrow> CHR '' '' \<notin> set (join_sep ''__'' rel)"
  by (induction "''__''" rel rule: join_sep.induct) auto

lemma flattened_join:
  assumes "rel \<noteq> []" and "\<forall>c \<in> set rel. flat_component c"
  shows "flattened rel = join_sep ''__'' rel"
proof -
  from assms(2) have "\<forall>c \<in> set rel. CHR ''/'' \<notin> set c" and ns: "\<forall>c \<in> set rel. CHR '' '' \<notin> set c"
    by (simp_all add: flat_component_def)
  then have "replace_char CHR ''/'' ''__'' (join_sep ''/'' rel) = join_sep ''__'' rel"
    by (simp add: replace_sep_join)
  moreover from ns have "CHR '' '' \<notin> set (join_sep ''__'' rel)"
    by (rule join_no_space)
  ultimately show ?thesis
    using assms(1) by (simp add: flattened_def str_of_path_def replace_char_absent)
qed

lemma join_sep_Cons:
  "join_sep sep (x # xs) = x @ (if xs = [] then [] else sep @ join_sep sep xs)"
  by (cases xs) simp_all

lemma has_double_underscore_append:
  "has_double_underscore (u @ CHR ''_'' # CHR ''_'' # v)"
proof (induction u)
  case Nil
  show ?case by simp
next
  case (Cons a u)
  then show ?case
    by (cases "u @ CHR ''_'' # CHR ''_'' # v") simp_all
qed

text \<open>
  If one component continues where another ends and what follows the shorter one is
  nothing or a separator, the two components are the same.
\<close>
lemma component_overlap:
  assumes "flat_component x" and "x = y @ us"
    and "us @ tx = ty" and "ty = [] \<or> (\<exists>w. ty = ''__'' @ w)"
  shows "us = []"
proof (rule ccontr)
  assume "us \<noteq> []"
  then obtain u us' where us: "us = u # us'"
    by (cases us) auto
  with assms(3,4) obtain w where w: "u # us' @ tx = CHR ''_'' # CHR ''_'' # w"
    by auto
  then have u: "u = CHR ''_''"
    by simp
  show False
  proof (cases us')
    case Nil
    with us u assms(2) have "last x = CHR ''_''"
      by simp
    with assms(1) show False
      by (simp add: flat_component_def)
  next
    case (Cons u' us'')
    with w have "u' = CHR ''_''"
      by simp
    with Cons us u assms(2) have "x = y @ CHR ''_'' # CHR ''_'' # us''"
      by simp
    then have "has_double_underscore x"
      by (simp add: has_double_underscore_append)
    with assms(1) show False
      by (simp add: flat_component_def)
  qed
qed

lemma join_sep_inj:
  assumes "\<forall>c \<in> set xs. flat_component c" and "\<forall>c \<in> set ys. flat_component c"
    and "join_sep ''__'' xs = join_sep ''__'' ys"
  shows "xs = ys"
  using assms
proof (induction xs arbitrary: ys)
  case Nil
  show ?case
  proof (cases ys)
    case Nil
    then show ?thesis by simp
  next
    case (Cons y ys')
    with Nil.prems(2) have "y \<noteq> []"
      by (simp add: flat_component_def)
    with Cons Nil.prems(3) show ?thesis
      by (simp add: join_sep_Cons)
  qed
next
  case (Cons x xs)
  from Cons.prems(1) have fx: "flat_component x"
    by simp
  show ?case
  proof (cases ys)
    case Nil
    from fx have "x \<noteq> []"
      by (simp add: flat_component_def)
    with Nil Cons.prems(3) show ?thesis
      by (simp add: join_sep_Cons)
  next
    case (Cons y ys')
    with Cons.prems(2) have fy: "flat_component y"
      by simp
    let ?tx = "if xs = [] then [] else ''__'' @ join_sep ''__'' xs"
    let ?ty = "if ys' = [] then [] else ''__'' @ join_sep ''__'' ys'"
    from Cons Cons.prems(3) have eq: "x @ ?tx = y @ ?ty"
      by (simp only: join_sep_Cons)
    have tx: "?tx = [] \<or> (\<exists>w. ?tx = ''__'' @ w)" and ty: "?ty = [] \<or> (\<exists>w. ?ty = ''__'' @ w)"
      by auto
    from eq obtain us where "(x = y @ us \<and> us @ ?tx = ?ty) \<or> (x @ us = y \<and> ?tx = us @ ?ty)"
      by (auto simp: append_eq_append_conv2)
    then have "us = []"
    proof
      assume "x = y @ us \<and> us @ ?tx = ?ty"
      with fx ty show ?thesis
        using component_overlap [of x y us ?tx ?ty] by blast
    next
      assume "x @ us = y \<and> ?tx = us @ ?ty"
      with fy tx show ?thesis
        using component_overlap [of y x us ?ty ?tx] by metis
    qed
    with \<open>(x = y @ us \<and> us @ ?tx = ?ty) \<or> (x @ us = y \<and> ?tx = us @ ?ty)\<close>
    have xy: "x = y" and tails: "?tx = ?ty"
      by auto
    from tails have "xs = [] \<longleftrightarrow> ys' = []"
      by (auto split: if_splits)
    moreover from tails have "xs \<noteq> [] \<Longrightarrow> ys' \<noteq> [] \<Longrightarrow> join_sep ''__'' xs = join_sep ''__'' ys'"
      by simp
    ultimately have "join_sep ''__'' xs = join_sep ''__'' ys'"
      by (cases "xs = []") auto
    moreover from Cons.prems(1) have "\<forall>c \<in> set xs. flat_component c"
      by simp
    moreover from Cons Cons.prems(2) have "\<forall>c \<in> set ys'. flat_component c"
      by simp
    ultimately have "xs = ys'"
      by (intro Cons.IH)
    with xy Cons show ?thesis
      by simp
  qed
qed

lemma safe_flat_name_short:
  "length (flattened rel) \<le> 180 \<Longrightarrow> safe_flat_name h rel = flattened rel"
  by (simp add: safe_flat_name_def flattened_def Let_def)

text \<open>
  Claim C5, amended. Distinct relative paths get distinct output names when none of
  their components has a space, an underscore at either end or two underscores in a
  row, and the flattened names have at most 180 characters; the long names, which are
  cut and marked with ten digits of a digest, are left aside.
\<close>
theorem flat_names_distinct:
  assumes "distinct rels"
    and "\<forall>rel \<in> set rels. rel \<noteq> [] \<and> (\<forall>c \<in> set rel. flat_component c)
                          \<and> length (flattened rel) \<le> 180"
  shows "distinct (map (safe_flat_name h) rels)"
proof -
  have "inj_on (safe_flat_name h) (set rels)"
  proof (rule inj_onI)
    fix r s
    assume r: "r \<in> set rels" and s: "s \<in> set rels"
      and eq: "safe_flat_name h r = safe_flat_name h s"
    from r s assms(2) have fr: "\<forall>c \<in> set r. flat_component c" and fs: "\<forall>c \<in> set s. flat_component c"
      and nr: "r \<noteq> []" and ns: "s \<noteq> []"
      and lr: "length (flattened r) \<le> 180" and ls: "length (flattened s) \<le> 180"
      by blast+
    from eq lr ls have "flattened r = flattened s"
      by (simp add: safe_flat_name_short)
    with nr ns fr fs have "join_sep ''__'' r = join_sep ''__'' s"
      by (simp add: flattened_join)
    with fr fs show "r = s"
      by (rule join_sep_inj)
  qed
  with assms(1) show ?thesis
    by (simp add: distinct_map)
qed

lemma same_basename_flat:
  "\<forall>rel \<in> set [[''a'', ''x.md''], [''b'', ''x.md'']].
     rel \<noteq> [] \<and> (\<forall>c \<in> set rel. flat_component c) \<and> length (flattened rel) \<le> 180"
  by code_simp

text \<open>
  The example of the specification: \<open>a/x.md\<close> and \<open>b/x.md\<close> become \<open>a__x.md\<close> and
  \<open>b__x.md\<close>.
\<close>
theorem flat_names_distinct_witness:
  "distinct [[''a'', ''x.md''], [''b'', ''x.md'']]
   \<and> flat_component ''a'' \<and> flat_component ''b'' \<and> flat_component ''x.md''
   \<and> length (flattened [''a'', ''x.md'']) \<le> 180
   \<and> length (flattened [''b'', ''x.md'']) \<le> 180
   \<and> distinct (map (safe_flat_name (sha1_hexdigest example_env)) [[''a'', ''x.md''], [''b'', ''x.md'']])
   \<and> map (safe_flat_name (sha1_hexdigest example_env)) [[''a'', ''x.md''], [''b'', ''x.md'']]
     = [''a__x.md'', ''b__x.md'']"
proof -
  have d: "distinct [[''a'', ''x.md''], [''b'', ''x.md'']]"
    by simp
  have comps: "flat_component ''a''" "flat_component ''b''" "flat_component ''x.md''"
    by code_simp+
  have lens: "length (flattened [''a'', ''x.md'']) \<le> 180" "length (flattened [''b'', ''x.md'']) \<le> 180"
    by code_simp+
  have names: "map (safe_flat_name (sha1_hexdigest example_env)) [[''a'', ''x.md''], [''b'', ''x.md'']]
     = [''a__x.md'', ''b__x.md'']"
    by code_simp
  from flat_names_distinct [OF d same_basename_flat, of "sha1_hexdigest example_env"]
  have "distinct (map (safe_flat_name (sha1_hexdigest example_env)) [[''a'', ''x.md''], [''b'', ''x.md'']])" .
  with d comps lens names show ?thesis
    by (intro conjI)
qed

subsection \<open>Exit status\<close>








subsection \<open>The name of the bundle directory\<close>

text \<open>
  Claim C7 as stated fails: an explicit name is sanitised too, so it is not always the
  slug, and the characters that are kept are the letters, the digits, the dot, the
  underscore and the dash, so that a dot or an underscore in the query is not replaced.
\<close>
theorem slug_is_sanitised:
  "name (default_args\<lparr>name := ''a b''\<rparr>) = ''a b''
   \<and> bundle_slug (default_args\<lparr>name := ''a b''\<rparr>) = ''a-b''
   \<and> bundle_slug (default_args\<lparr>name := ''a b''\<rparr>) \<noteq> name (default_args\<lparr>name := ''a b''\<rparr>)
   \<and> bundle_slug (default_args\<lparr>query := ''V1.2_x''\<rparr>) = ''v1.2_x''"
  by code_simp

lemma slug_ok_dash: "slug_ok CHR ''-''"
  by (simp add: slug_ok_def)

lemma sub_runs_chars: "c \<in> set (sub_runs b s) \<Longrightarrow> slug_ok c"
proof (induction s arbitrary: b)
  case Nil
  then show ?case
    by simp
next
  case (Cons x xs)
  show ?case
  proof (cases "slug_ok x")
    case True
    with Cons.prems have "c = x \<or> c \<in> set (sub_runs False xs)"
      by simp
    with True Cons.IH show ?thesis
      by blast
  next
    case False
    with Cons.prems have "c = CHR ''-'' \<or> c \<in> set (sub_runs True xs)"
      by (cases b) simp_all
    with slug_ok_dash Cons.IH show ?thesis
      by blast
  qed
qed

lemma strip_chars_subset: "set (strip_chars P s) \<subseteq> set s"
proof -
  have "set (dropWhile P (rev (dropWhile P s))) \<subseteq> set (rev (dropWhile P s))"
    by (auto dest: set_dropWhileD)
  also have "\<dots> \<subseteq> set s"
    by (auto dest: set_dropWhileD)
  finally show ?thesis
    by (simp add: strip_chars_def)
qed

lemma or_bundle_chars:
  assumes "\<forall>c \<in> set s. slug_ok c"
  shows "\<forall>c \<in> set (or_bundle s). slug_ok c"
proof (cases "s = []")
  case True
  then show ?thesis
    by (simp add: or_bundle_def slug_ok_def lower_letters_def)
next
  case False
  with assms show ?thesis
    by (simp add: or_bundle_def)
qed

lemma or_bundle_nonempty: "or_bundle s \<noteq> []"
  by (simp add: or_bundle_def)

lemma or_bundle_length: "length s \<le> 60 \<Longrightarrow> length (or_bundle s) \<le> 60"
  by (simp add: or_bundle_def)

lemma sub_runs_clean: "\<forall>c \<in> set s. slug_ok c \<Longrightarrow> sub_runs False s = s"
  by (induction s) simp_all

lemma strip_chars_ends:
  assumes "s \<noteq> []" and "\<not> P (hd s)" and "\<not> P (last s)"
  shows "strip_chars P s = s"
proof -
  from assms(1,2) have front: "dropWhile P s = s"
    by (cases s) simp_all
  from assms(1,3) have "\<not> P (hd (rev s))"
    by (simp add: hd_rev)
  with assms(1) have "dropWhile P (rev s) = rev s"
    by (cases "rev s") simp_all
  with front show ?thesis
    by (simp add: strip_chars_def)
qed

lemma sub_runs_flag:
  "s = [] \<or> slug_ok (hd s) \<Longrightarrow> sub_runs True s = sub_runs False s"
  by (cases s) auto

lemma sub_runs_in_run:
  "\<forall>c \<in> set r. \<not> slug_ok c \<Longrightarrow> sub_runs True (r @ s) = sub_runs True s"
  by (induction r) simp_all

lemma sub_runs_run:
  assumes "r \<noteq> []" and "\<forall>c \<in> set r. \<not> slug_ok c" and "s = [] \<or> slug_ok (hd s)"
  shows "sub_runs False (r @ s) = CHR ''-'' # sub_runs False s"
proof -
  from assms(1) obtain c r' where r: "r = c # r'"
    by (cases r) auto
  with assms(2) have "\<not> slug_ok c" and rest: "\<forall>c \<in> set r'. \<not> slug_ok c"
    by simp_all
  then have "sub_runs False (r @ s) = CHR ''-'' # sub_runs True (r' @ s)"
    using r by simp
  also from rest have "sub_runs True (r' @ s) = sub_runs True s"
    by (rule sub_runs_in_run)
  also from assms(3) have "sub_runs True s = sub_runs False s"
    by (rule sub_runs_flag)
  finally show ?thesis .
qed

lemma bundle_slug_chars: "\<forall>c \<in> set (bundle_slug A). slug_ok c"
proof -
  have strip: "\<forall>c \<in> set (strip_chars is_dash (sub_runs False s)). slug_ok c" for s
    using strip_chars_subset [of is_dash "sub_runs False s"] sub_runs_chars [of _ False s]
    by blast
  then have cut: "\<forall>c \<in> set (take 60 (strip_chars is_dash (sub_runs False s))). slug_ok c" for s
    by (meson in_set_takeD)
  have plain: "\<forall>c \<in> set ''bundle''. slug_ok c"
    using or_bundle_chars [of "[]"] by (simp add: or_bundle_def)
  show ?thesis
    unfolding bundle_slug_def
    using or_bundle_chars [OF strip [of "name A"]]
          or_bundle_chars [OF cut [of "str_lower (query A)"]] plain
    by (simp del: set_simps)
qed

text \<open>
  Claim C7, amended. The bundle directory is \<open><out-root>/<timestamp>__<slug>\<close>. The slug
  is the name, if one is given, with every run of characters other than letters, digits,
  dot, underscore and dash replaced by one dash and the dashes at both ends removed (so a
  name of such characters without a dash at either end is the slug itself); else it is
  the lower-cased query treated in the same way and then cut to 60 characters; it is
  \<open>bundle\<close> when the result is empty or when there is neither a name nor a query.
\<close>
theorem bundle_directory_name:
  "bundle_dir E A = resolve E (out A) @ [timestamp E @ ''__'' @ bundle_slug A]
   \<and> (name A \<noteq> [] \<longrightarrow>
        bundle_slug A = or_bundle (strip_chars is_dash (sub_runs False (name A))))
   \<and> (name A = [] \<and> query A \<noteq> [] \<longrightarrow>
        bundle_slug A
        = or_bundle (take 60 (strip_chars is_dash (sub_runs False (str_lower (query A))))))
   \<and> (name A = [] \<and> query A = [] \<longrightarrow> bundle_slug A = ''bundle'')
   \<and> (name A \<noteq> [] \<and> (\<forall>c \<in> set (name A). slug_ok c)
        \<and> hd (name A) \<noteq> CHR ''-'' \<and> last (name A) \<noteq> CHR ''-'' \<longrightarrow> bundle_slug A = name A)
   \<and> bundle_slug A \<noteq> []
   \<and> (\<forall>c \<in> set (bundle_slug A). slug_ok c)
   \<and> (name A = [] \<longrightarrow> length (bundle_slug A) \<le> 60)
   \<and> or_bundle [] = ''bundle''
   \<and> (\<forall>s. s \<noteq> [] \<longrightarrow> or_bundle s = s)
   \<and> sub_runs False [] = []
   \<and> (\<forall>c s. slug_ok c \<longrightarrow> sub_runs False (c # s) = c # sub_runs False s)
   \<and> (\<forall>r s. r \<noteq> [] \<and> (\<forall>c \<in> set r. \<not> slug_ok c) \<and> (s = [] \<or> slug_ok (hd s)) \<longrightarrow>
         sub_runs False (r @ s) = CHR ''-'' # sub_runs False s)"
proof (intro conjI)
  show "bundle_dir E A = resolve E (out A) @ [timestamp E @ ''__'' @ bundle_slug A]"
    by (simp add: bundle_dir_def)
next
  show "name A \<noteq> [] \<longrightarrow>
        bundle_slug A = or_bundle (strip_chars is_dash (sub_runs False (name A)))"
    by (simp add: bundle_slug_def)
next
  show "name A = [] \<and> query A \<noteq> [] \<longrightarrow>
        bundle_slug A
        = or_bundle (take 60 (strip_chars is_dash (sub_runs False (str_lower (query A)))))"
    by (simp add: bundle_slug_def)
next
  show "name A = [] \<and> query A = [] \<longrightarrow> bundle_slug A = ''bundle''"
    by (simp add: bundle_slug_def)
next
  show "name A \<noteq> [] \<and> (\<forall>c \<in> set (name A). slug_ok c)
        \<and> hd (name A) \<noteq> CHR ''-'' \<and> last (name A) \<noteq> CHR ''-'' \<longrightarrow> bundle_slug A = name A"
  proof
    assume a: "name A \<noteq> [] \<and> (\<forall>c \<in> set (name A). slug_ok c)
        \<and> hd (name A) \<noteq> CHR ''-'' \<and> last (name A) \<noteq> CHR ''-''"
    then have "sub_runs False (name A) = name A"
      by (simp add: sub_runs_clean)
    moreover from a have "strip_chars is_dash (name A) = name A"
      by (intro strip_chars_ends) (simp_all add: is_dash_def)
    ultimately show "bundle_slug A = name A"
      using a by (simp add: bundle_slug_def or_bundle_def)
  qed
next
  show "bundle_slug A \<noteq> []"
    by (simp add: bundle_slug_def or_bundle_nonempty)
next
  show "\<forall>c \<in> set (bundle_slug A). slug_ok c"
    by (rule bundle_slug_chars)
next
  show "name A = [] \<longrightarrow> length (bundle_slug A) \<le> 60"
    by (simp add: bundle_slug_def or_bundle_length)
next
  show "or_bundle [] = ''bundle''"
    by (simp add: or_bundle_def)
next
  show "\<forall>s. s \<noteq> [] \<longrightarrow> or_bundle s = s"
    by (simp add: or_bundle_def)
next
  show "sub_runs False [] = []"
    by simp
next
  show "\<forall>c s. slug_ok c \<longrightarrow> sub_runs False (c # s) = c # sub_runs False s"
    by simp
next
  show "\<forall>r s. r \<noteq> [] \<and> (\<forall>c \<in> set r. \<not> slug_ok c) \<and> (s = [] \<or> slug_ok (hd s)) \<longrightarrow>
         sub_runs False (r @ s) = CHR ''-'' # sub_runs False s"
    by (simp add: sub_runs_run)
qed

lemma named_bundle:
  "name (default_args\<lparr>name := ''irsa-notes''\<rparr>) \<noteq> []
   \<and> (\<forall>c \<in> set (name (default_args\<lparr>name := ''irsa-notes''\<rparr>)). slug_ok c)
   \<and> hd (name (default_args\<lparr>name := ''irsa-notes''\<rparr>)) \<noteq> CHR ''-''
   \<and> last (name (default_args\<lparr>name := ''irsa-notes''\<rparr>)) \<noteq> CHR ''-''"
  by code_simp

lemma queried_bundle:
  "name (default_args\<lparr>query := ''IRSA  s3!''\<rparr>) = [] \<and> query (default_args\<lparr>query := ''IRSA  s3!''\<rparr>) \<noteq> []"
  "or_bundle (take 60 (strip_chars is_dash
      (sub_runs False (str_lower (query (default_args\<lparr>query := ''IRSA  s3!''\<rparr>)))))) = ''irsa-s3''"
  "name default_args = [] \<and> query default_args = []"
  "resolve example_env (out (default_args\<lparr>name := ''irsa-notes''\<rparr>)) = [''repo'', ''notebook-bundles'']"
  "timestamp example_env = ''20240101-120000''"
  "name (default_args\<lparr>name := ''a b!''\<rparr>) \<noteq> []"
  "or_bundle (strip_chars is_dash (sub_runs False (name (default_args\<lparr>name := ''a b!''\<rparr>)))) = ''a-b''"
  "name (default_args\<lparr>name := ''!?''\<rparr>) \<noteq> []"
  "or_bundle (strip_chars is_dash (sub_runs False (name (default_args\<lparr>name := ''!?''\<rparr>)))) = ''bundle''"
  by code_simp+

text \<open>
  The name \<open>irsa-notes\<close> is the slug as it is, the name \<open>a b!\<close> gives \<open>a-b\<close> and the name
  \<open>!?\<close> gives \<open>bundle\<close>; the query \<open>IRSA  s3!\<close> gives the slug \<open>irsa-s3\<close>; without a name
  and a query the slug is \<open>bundle\<close>.
\<close>
theorem bundle_directory_name_witness:
  "name (default_args\<lparr>name := ''irsa-notes''\<rparr>) = ''irsa-notes''
   \<and> bundle_slug (default_args\<lparr>name := ''irsa-notes''\<rparr>) = name (default_args\<lparr>name := ''irsa-notes''\<rparr>)
   \<and> bundle_dir example_env (default_args\<lparr>name := ''irsa-notes''\<rparr>)
      = [''repo'', ''notebook-bundles''] @ [''20240101-120000'' @ ''__''
           @ bundle_slug (default_args\<lparr>name := ''irsa-notes''\<rparr>)]
   \<and> bundle_slug (default_args\<lparr>name := ''a b!''\<rparr>) = ''a-b''
   \<and> bundle_slug (default_args\<lparr>name := ''!?''\<rparr>) = ''bundle''
   \<and> bundle_slug (default_args\<lparr>query := ''IRSA  s3!''\<rparr>) = ''irsa-s3''
   \<and> bundle_slug default_args = ''bundle''"
proof -
  have nm: "name (default_args\<lparr>name := ''irsa-notes''\<rparr>) = ''irsa-notes''"
    by code_simp
  from bundle_directory_name [of example_env "default_args\<lparr>name := ''irsa-notes''\<rparr>"] named_bundle
  have verbatim: "bundle_slug (default_args\<lparr>name := ''irsa-notes''\<rparr>)
                  = name (default_args\<lparr>name := ''irsa-notes''\<rparr>)"
    by blast
  from bundle_directory_name [of example_env "default_args\<lparr>name := ''irsa-notes''\<rparr>"]
  have "bundle_dir example_env (default_args\<lparr>name := ''irsa-notes''\<rparr>)
        = resolve example_env (out (default_args\<lparr>name := ''irsa-notes''\<rparr>))
          @ [timestamp example_env @ ''__'' @ bundle_slug (default_args\<lparr>name := ''irsa-notes''\<rparr>)]"
    by (rule conjunct1)
  then have dir: "bundle_dir example_env (default_args\<lparr>name := ''irsa-notes''\<rparr>)
      = [''repo'', ''notebook-bundles''] @ [''20240101-120000'' @ ''__''
           @ bundle_slug (default_args\<lparr>name := ''irsa-notes''\<rparr>)]"
    by (simp only: queried_bundle(4,5))
  from bundle_directory_name [of example_env "default_args\<lparr>query := ''IRSA  s3!''\<rparr>"] queried_bundle(1)
  have "bundle_slug (default_args\<lparr>query := ''IRSA  s3!''\<rparr>)
        = or_bundle (take 60 (strip_chars is_dash
            (sub_runs False (str_lower (query (default_args\<lparr>query := ''IRSA  s3!''\<rparr>))))))"
    by blast
  then have queried: "bundle_slug (default_args\<lparr>query := ''IRSA  s3!''\<rparr>) = ''irsa-s3''"
    by (simp only: queried_bundle(2))
  from bundle_directory_name [of example_env default_args] queried_bundle(3)
  have plain: "bundle_slug default_args = ''bundle''"
    by blast
  from bundle_directory_name [of example_env "default_args\<lparr>name := ''a b!''\<rparr>"] queried_bundle(6)
  have "bundle_slug (default_args\<lparr>name := ''a b!''\<rparr>)
        = or_bundle (strip_chars is_dash (sub_runs False (name (default_args\<lparr>name := ''a b!''\<rparr>))))"
    by blast
  then have dashed: "bundle_slug (default_args\<lparr>name := ''a b!''\<rparr>) = ''a-b''"
    by (simp only: queried_bundle(7))
  from bundle_directory_name [of example_env "default_args\<lparr>name := ''!?''\<rparr>"] queried_bundle(8)
  have "bundle_slug (default_args\<lparr>name := ''!?''\<rparr>)
        = or_bundle (strip_chars is_dash (sub_runs False (name (default_args\<lparr>name := ''!?''\<rparr>))))"
    by blast
  then have emptied: "bundle_slug (default_args\<lparr>name := ''!?''\<rparr>) = ''bundle''"
    by (simp only: queried_bundle(9))
  from nm verbatim dir dashed emptied queried plain show ?thesis
    by (intro conjI)
qed

subsection \<open>Unreadable files\<close>









subsection \<open>Upper-case entries of the allow-list\<close>












subsection \<open>What a run leaves untouched\<close>

text \<open>
  Claim C10 as stated fails when the output root lies inside the research directory and
  the bundle directory of this second is already there: its \<open>index.md\<close> is a file under
  the research directory, it is found as a candidate, and the run overwrites it.
\<close>
theorem nested_output_overwrites_source:
  "resolve nested_env (research_dir (default_args\<lparr>out := ''research/out''\<rparr>)) = [''repo'', ''research'']
   \<and> resolve nested_env (out (default_args\<lparr>out := ''research/out''\<rparr>)) = [''repo'', ''research'', ''out'']
   \<and> is_file nested_env [''repo'', ''research'', ''out'', ''20240101-120000__bundle'', ''index.md'']
   \<and> map path (selected (main nested_env (default_args\<lparr>out := ''research/out''\<rparr>)))
       = [[''repo'', ''research'', ''out'', ''20240101-120000__bundle'', ''index.md'']]
   \<and> effects (main nested_env (default_args\<lparr>out := ''research/out''\<rparr>))
       = [MkdirP [''repo'', ''research'', ''out''],
          MkdirP [''repo'', ''research'', ''out'', ''20240101-120000__bundle''],
          Copy2 [''repo'', ''research'', ''out'', ''20240101-120000__bundle'', ''index.md'']
                [''repo'', ''research'', ''out'', ''20240101-120000__bundle'',
                 ''research__out__20240101-120000__bundle__index.md''],
          WriteText [''repo'', ''research'', ''out'', ''20240101-120000__bundle'', ''manifest.json''],
          WriteText [''repo'', ''research'', ''out'', ''20240101-120000__bundle'', ''index.md''],
          PrintOut [''repo'', ''research'', ''out'', ''20240101-120000__bundle'']]"
  by code_simp

lemma copy_selected_targets:
  "t \<in> set (concat (map write_targets (fst (copy_selected E bd cs)))) \<Longrightarrow> \<exists>f. t = bd @ [f]"
  by (induction cs arbitrary: t) (auto split: option.splits prod.splits)

lemma copy_selected_sources:
  "Copy2 src dst \<in> set (fst (copy_selected E bd cs)) \<Longrightarrow> src \<in> path ` set cs"
  by (induction cs) (auto split: option.splits prod.splits)

lemma main_targets:
  assumes "t \<in> set (paths_written (main E A))"
  shows "prefix t (bundle_dir E A) \<or> (\<exists>f. t = bundle_dir E A @ [f])"
proof (cases "is_dir E (resolve E (research_dir A))")
  case False
  with assms show ?thesis
    by (simp add: paths_written_def main_effects)
next
  case dir: True
  have up: "prefix t (resolve E (out A)) \<Longrightarrow> prefix t (bundle_dir E A)"
    by (simp add: bundle_dir_def prefix_prefix)
  show ?thesis
  proof (cases "build_patterns E A")
    case (Inl e)
    with dir assms show ?thesis
      by (simp add: paths_written_def main_effects)
  next
    case pats: (Inr ps)
    show ?thesis
    proof (cases "collect E A ps (sort (rglob E (resolve E (research_dir A))))")
      case (Inl e)
      with dir pats assms show ?thesis
        by (simp add: paths_written_def main_effects)
    next
      case (Inr cands)
      let ?copies = "fst (copy_selected E (bundle_dir E A) (select A (drop_zero_hits ps cands)))"
      from dir pats Inr assms
      have "prefix t (resolve E (out A)) \<or> prefix t (bundle_dir E A)
            \<or> t \<in> set (concat (map write_targets ?copies))
            \<or> t = bundle_dir E A @ [''manifest.json''] \<or> t = bundle_dir E A @ [''index.md'']"
        by (auto simp: paths_written_def main_effects split: if_splits)
      then show ?thesis
        using copy_selected_targets [of t E "bundle_dir E A" "select A (drop_zero_hits ps cands)"] up
        by blast
    qed
  qed
qed

lemma main_copy_sources:
  assumes "Copy2 src dst \<in> set (effects (main E A))"
  shows "src \<in> path ` set (selected (main E A))"
proof -
  from assms have dir: "is_dir E (resolve E (research_dir A))"
    by (auto simp: main_effects split: if_splits)
  from assms dir obtain ps where pats: "build_patterns E A = Inr ps"
    by (cases "build_patterns E A") (auto simp: main_effects)
  from assms dir pats obtain cands where
    cands: "collect E A ps (sort (rglob E (resolve E (research_dir A)))) = Inr cands"
    by (cases "collect E A ps (sort (rglob E (resolve E (research_dir A))))")
       (auto simp: main_effects)
  from assms dir pats cands
  have "Copy2 src dst \<in> set (fst (copy_selected E (bundle_dir E A) (select A (drop_zero_hits ps cands))))"
    by (auto simp: main_effects split: if_splits)
  then have "src \<in> path ` set (select A (drop_zero_hits ps cands))"
    by (rule copy_selected_sources)
  with dir pats cands show ?thesis
    by (simp add: main_selected)
qed

text \<open>
  Claim C10, amended. Every path that a run creates or writes is the bundle directory, one
  of its ancestors (the output root among them; a directory is created only where it is
  missing) or a file directly in the bundle directory. A run only makes directories,
  copies, writes and prints, and the source of every copy is a selected file, which is
  only read. So when neither the research directory nor the bundle directory lies in the
  other, as with the default sibling directories, no path in or under the research
  directory is created or written.
\<close>
theorem writes_stay_in_bundle:
  "(\<forall>t \<in> set (paths_written (main E A)).
      prefix t (bundle_dir E A) \<or> (\<exists>f. t = bundle_dir E A @ [f]))
   \<and> prefix (resolve E (out A)) (bundle_dir E A)
   \<and> (\<forall>e \<in> set (effects (main E A)).
         (\<exists>p. e = MkdirP p) \<or> (\<exists>src dst. e = Copy2 src dst) \<or> (\<exists>p. e = WriteText p)
         \<or> e = PrintErr \<or> (\<exists>p. e = PrintOut p))
   \<and> (\<forall>src dst. Copy2 src dst \<in> set (effects (main E A)) \<longrightarrow>
         src \<in> path ` set (selected (main E A)))
   \<and> (\<not> prefix (resolve E (research_dir A)) (bundle_dir E A)
       \<and> \<not> prefix (bundle_dir E A) (resolve E (research_dir A)) \<longrightarrow>
         (\<forall>t \<in> set (paths_written (main E A)). \<not> prefix (resolve E (research_dir A)) t))"
proof (intro conjI)
  show targets: "\<forall>t \<in> set (paths_written (main E A)).
      prefix t (bundle_dir E A) \<or> (\<exists>f. t = bundle_dir E A @ [f])"
    using main_targets by blast
  show "prefix (resolve E (out A)) (bundle_dir E A)"
    by (simp add: bundle_dir_def)
  show "\<forall>e \<in> set (effects (main E A)).
         (\<exists>p. e = MkdirP p) \<or> (\<exists>src dst. e = Copy2 src dst) \<or> (\<exists>p. e = WriteText p)
         \<or> e = PrintErr \<or> (\<exists>p. e = PrintOut p)"
  proof
    fix e
    show "(\<exists>p. e = MkdirP p) \<or> (\<exists>src dst. e = Copy2 src dst) \<or> (\<exists>p. e = WriteText p)
         \<or> e = PrintErr \<or> (\<exists>p. e = PrintOut p)"
      by (cases e) simp_all
  qed
  show "\<forall>src dst. Copy2 src dst \<in> set (effects (main E A)) \<longrightarrow>
         src \<in> path ` set (selected (main E A))"
    using main_copy_sources by blast
  show "\<not> prefix (resolve E (research_dir A)) (bundle_dir E A)
       \<and> \<not> prefix (bundle_dir E A) (resolve E (research_dir A)) \<longrightarrow>
         (\<forall>t \<in> set (paths_written (main E A)). \<not> prefix (resolve E (research_dir A)) t)"
  proof (intro impI ballI)
    fix t
    let ?r = "resolve E (research_dir A)"
    assume apart: "\<not> prefix ?r (bundle_dir E A) \<and> \<not> prefix (bundle_dir E A) ?r"
      and t: "t \<in> set (paths_written (main E A))"
    from targets t consider "prefix t (bundle_dir E A)" | f where "t = bundle_dir E A @ [f]"
      by blast
    then show "\<not> prefix ?r t"
    proof cases
      case 1
      show ?thesis
      proof
        assume "prefix ?r t"
        from this 1 have "prefix ?r (bundle_dir E A)"
          by (rule prefix_order.trans)
        with apart show False
          by simp
      qed
    next
      case 2
      show ?thesis
      proof
        assume "prefix ?r t"
        with 2 have "?r = bundle_dir E A @ [f] \<or> prefix ?r (bundle_dir E A)"
          by (simp add: prefix_snoc)
        with apart show False
          by auto
      qed
    qed
  qed
qed

lemma example_env_apart:
  "\<not> prefix (resolve example_env (research_dir default_args)) (bundle_dir example_env default_args)
   \<and> \<not> prefix (bundle_dir example_env default_args) (resolve example_env (research_dir default_args))"
  by code_simp

lemma example_env_copy_written:
  "[''repo'', ''notebook-bundles'', ''20240101-120000__bundle'', ''research__aws__s3-irsa.md'']
     \<in> set (paths_written (main example_env default_args))"
  by code_simp

lemma example_env_effects:
  "effects (main example_env default_args)
   = [MkdirP [''repo'', ''notebook-bundles''],
      MkdirP [''repo'', ''notebook-bundles'', ''20240101-120000__bundle''],
      Copy2 [''repo'', ''research'', ''aws'', ''s3-irsa.md'']
            [''repo'', ''notebook-bundles'', ''20240101-120000__bundle'', ''research__aws__s3-irsa.md''],
      Copy2 [''repo'', ''research'', ''misc'', ''notes.md'']
            [''repo'', ''notebook-bundles'', ''20240101-120000__bundle'', ''research__misc__notes.md''],
      WriteText [''repo'', ''notebook-bundles'', ''20240101-120000__bundle'', ''manifest.json''],
      WriteText [''repo'', ''notebook-bundles'', ''20240101-120000__bundle'', ''index.md''],
      PrintOut [''repo'', ''notebook-bundles'', ''20240101-120000__bundle'']]"
  by code_simp

text \<open>
  The default run over the example of the specification: the research directory and the
  bundle directory lie apart, and the copy of \<open>s3-irsa.md\<close>, like every other path that
  is written, is not under the research directory.
\<close>
theorem writes_stay_in_bundle_witness:
  "\<not> prefix (resolve example_env (research_dir default_args)) (bundle_dir example_env default_args)
   \<and> \<not> prefix (bundle_dir example_env default_args) (resolve example_env (research_dir default_args))
   \<and> effects (main example_env default_args)
     = [MkdirP [''repo'', ''notebook-bundles''],
        MkdirP [''repo'', ''notebook-bundles'', ''20240101-120000__bundle''],
        Copy2 [''repo'', ''research'', ''aws'', ''s3-irsa.md'']
              [''repo'', ''notebook-bundles'', ''20240101-120000__bundle'', ''research__aws__s3-irsa.md''],
        Copy2 [''repo'', ''research'', ''misc'', ''notes.md'']
              [''repo'', ''notebook-bundles'', ''20240101-120000__bundle'', ''research__misc__notes.md''],
        WriteText [''repo'', ''notebook-bundles'', ''20240101-120000__bundle'', ''manifest.json''],
        WriteText [''repo'', ''notebook-bundles'', ''20240101-120000__bundle'', ''index.md''],
        PrintOut [''repo'', ''notebook-bundles'', ''20240101-120000__bundle'']]
   \<and> [''repo'', ''notebook-bundles'', ''20240101-120000__bundle'', ''research__aws__s3-irsa.md'']
       \<in> set (paths_written (main example_env default_args))
   \<and> \<not> prefix (resolve example_env (research_dir default_args))
         [''repo'', ''notebook-bundles'', ''20240101-120000__bundle'', ''research__aws__s3-irsa.md'']"
proof -
  from writes_stay_in_bundle [of example_env default_args]
  have "\<not> prefix (resolve example_env (research_dir default_args)) (bundle_dir example_env default_args)
       \<and> \<not> prefix (bundle_dir example_env default_args) (resolve example_env (research_dir default_args)) \<longrightarrow>
         (\<forall>t \<in> set (paths_written (main example_env default_args)).
            \<not> prefix (resolve example_env (research_dir default_args)) t)"
    by (rule conjunct2 [OF conjunct2 [OF conjunct2 [OF conjunct2]]])
  from this example_env_apart
  have "\<forall>t \<in> set (paths_written (main example_env default_args)).
            \<not> prefix (resolve example_env (research_dir default_args)) t"
    by (rule mp)
  from this example_env_copy_written
  have outside: "\<not> prefix (resolve example_env (research_dir default_args))
         [''repo'', ''notebook-bundles'', ''20240101-120000__bundle'', ''research__aws__s3-irsa.md'']"
    by (rule bspec)
  from example_env_apart have a: "\<not> prefix (resolve example_env (research_dir default_args)) (bundle_dir example_env default_args)"
    by (rule conjunct1)
  from example_env_apart have b: "\<not> prefix (bundle_dir example_env default_args) (resolve example_env (research_dir default_args))"
    by (rule conjunct2)
  from a b example_env_effects example_env_copy_written outside show ?thesis
    by (intro conjI)
qed

end
